theory Spec2Isabelle
  imports Main "HOL-Library.Word"
begin

section \<open>The HPACK header codec adapter (HPACKCodec.cpp)\<close>

text \<open>
  The adapter sits between the transport codec's header lists and the HPACK
  compression engine (\<^verbatim>\<open>HPACKEncoder\<close>, \<^verbatim>\<open>HPACKDecoder\<close>). The engine, the stats
  recorder and the header/piece types are declared in other files; what the
  adapter needs of them is taken as a parameter or modelled as stated below.
\<close>

subsection \<open>Data model\<close>

datatype TransportDirection = DOWNSTREAM | UPSTREAM

text \<open>\<^verbatim>\<open>HPACK::MessageType\<close>: the role an engine instance is bound to.\<close>

datatype MessageType = REQ | RESP

text \<open>
  \<^verbatim>\<open>encode\<close> reads the caller's strings through pointers and rewrites
  characters in place through a \<^verbatim>\<open>char*\<close>, so the character buffers of the
  strings are kept in an explicit store: address \<open>a\<close> holds the characters
  \<open>heap ! a\<close>, an address at or beyond the length holds nothing, and a new
  buffer takes the next address (\<open>alloc\<close>). A string object is the address of
  its buffer: two string objects that share a buffer are the same address.
\<close>

type_synonym addr = nat

type_synonym Heap = "string list"

definition alloc :: "Heap \<Rightarrow> string \<Rightarrow> addr \<times> Heap" where
  "alloc heap s = (length heap, heap @ [s])"

text \<open>
  \<^verbatim>\<open>std::string\<close> belongs to the standard library, not to the source file, and
  what its copy constructor does with the buffer is a parameter of the model:
  a reference-counted implementation (\<open>RefCounted\<close>, the copy-on-write string
  of libstdc++ before its C++11 ABI) lets the copy share the buffer of the
  original, and leaves it shared while only \<^verbatim>\<open>const\<close> members such as \<^verbatim>\<open>data()\<close>
  and \<^verbatim>\<open>size()\<close> are called; a copying implementation (\<open>Copying\<close>) gives the
  copy a buffer of its own with the same characters.
\<close>

datatype StringImpl = RefCounted | Copying

definition string_copy :: "StringImpl \<Rightarrow> Heap \<Rightarrow> addr \<Rightarrow> addr \<times> Heap" where
  "string_copy impl heap a =
     (case impl of RefCounted \<Rightarrow> (a, heap) | Copying \<Rightarrow> alloc heap (heap ! a))"

text \<open>
  Modelled from the spec: \<^verbatim>\<open>compress::Header\<close>, the caller's header, is declared
  in Header.h. Its name and value are owned elsewhere and read by reference:
  the source dereferences the two members (\<^verbatim>\<open>*h.name\<close>, \<^verbatim>\<open>*h.value\<close>), so they are
  pointers to strings.
\<close>

record Header =
  name :: addr
  "value" :: addr

text \<open>
  Modelled from the spec: \<^verbatim>\<open>HPACKHeader\<close>, the engine's header, is declared in
  HPACKHeader.h. It owns its name and its value (the source reads
  \<^verbatim>\<open>h.name.size()\<close>, \<^verbatim>\<open>h.value.c_str()\<close>); in the vectors handed to and filled by
  the engine it is the pair of strings.
\<close>

record HPACKHeader =
  name :: string
  "value" :: string

text \<open>
  Modelled from the spec: the constructors of \<^verbatim>\<open>HPACKHeader\<close> are declared in
  HPACKHeader.h. \<^verbatim>\<open>HPACKHeader(name, value)\<close> builds a copy of the name and of
  the value, that is, its two members are copy-constructed from the two
  strings; the copy constructor used by \<^verbatim>\<open>push_back\<close> does the same from the
  members of another header. A header object in memory is the pair of its two
  string objects.
\<close>

definition HPACKHeader_new ::
  "StringImpl \<Rightarrow> Heap \<Rightarrow> addr \<Rightarrow> addr \<Rightarrow> (addr \<times> addr) \<times> Heap" where
  "HPACKHeader_new impl heap n v =
     (let (headerName, heap) = string_copy impl heap n;
          (headerValue, heap) = string_copy impl heap v
      in ((headerName, headerValue), heap))"

text \<open>The header that the engine reads at a header object in memory.\<close>

definition loadConverted :: "Heap \<Rightarrow> addr \<times> addr \<Rightarrow> HPACKHeader" where
  "loadConverted heap c =
     \<lparr>HPACKHeader.name = heap ! fst c, HPACKHeader.value = heap ! snd c\<rparr>"

text \<open>
  Modelled from the spec: \<^verbatim>\<open>compress::HeaderPiece\<close> is declared in
  HeaderPiece.h. A piece is a name or value fragment constructed with its byte
  length and the multi-valued marker: \<^verbatim>\<open>emplace_back(data, len, owner, multiValued)\<close>
  gives a view of \<^verbatim>\<open>len\<close> characters starting at \<^verbatim>\<open>data\<close>, with the two flags.
\<close>

record HeaderPiece =
  str :: string
  owner :: bool
  multiValued :: bool

definition HeaderPiece_new :: "string \<Rightarrow> nat \<Rightarrow> bool \<Rightarrow> bool \<Rightarrow> HeaderPiece" where
  "HeaderPiece_new data len inOwner inMultiValued =
     \<lparr>str = take len data, owner = inOwner, multiValued = inMultiValued\<rparr>"

text \<open>
  Modelled from the spec: \<^verbatim>\<open>folly::IOBuf\<close> is not part of the source file. The
  encoded buffer is an owned chain of byte segments, and its byte length
  (\<^verbatim>\<open>computeChainDataLength\<close>) is the sum of the segments' lengths. A null
  \<^verbatim>\<open>unique_ptr<IOBuf>\<close> is \<open>None\<close>.
\<close>

type_synonym IOBuf = "8 word list list"

definition computeChainDataLength :: "IOBuf \<Rightarrow> nat" where
  "computeChainDataLength buf = sum_list (map length buf)"

text \<open>
  Modelled from the spec: \<^verbatim>\<open>folly::io::Cursor\<close> is not part of the source file.
  A byte cursor is the bytes not yet read.
\<close>

type_synonym Cursor = "8 word list"

text \<open>
  Modelled from the spec: \<^verbatim>\<open>HTTPHeaderSize\<close>, the size accounting tuple, is
  declared in HTTPHeaderSize.h. The spec gives its two fields as byte counts
  and no width, so they are natural numbers.
\<close>

record HTTPHeaderSize =
  compressed :: nat
  uncompressed :: nat

text \<open>
  Modelled from the spec: the stats recorder's interface is declared in
  HeaderCodec.h. The recorder (\<^verbatim>\<open>stats_\<close>) is an optional sink that receives
  encode size, decode size and decode-error events keyed by codec type; an
  attached recorder is the list of events it has received, oldest first, and
  \<open>None\<close> is the null pointer. The adapter only uses the codec type \<^verbatim>\<open>HPACK\<close>.
\<close>

datatype Type = HPACK

datatype StatsEvent =
    recordEncode Type HTTPHeaderSize
  | recordDecode Type HTTPHeaderSize
  | recordDecodeError Type

text \<open>
  Modelled from the spec: \<^verbatim>\<open>HPACKDecoder::Error\<close>, the engine's own error causes,
  is declared in HPACKDecoder.h. The adapter singles out "headers too large"
  and treats every other cause alike, so the other causes are left as a type
  parameter.
\<close>

datatype 'x Error = HEADERS_TOO_LARGE | OTHER 'x

text \<open>
  Modelled from the spec: \<^verbatim>\<open>HeaderDecodeError\<close> is declared in HeaderCodec.h; it
  has the two error kinds the adapter returns.
\<close>

datatype HeaderDecodeError = BAD_ENCODING | HEADERS_TOO_LARGE

text \<open>
  Modelled from the spec: \<^verbatim>\<open>HeaderDecodeResult\<close> is declared in HeaderCodec.h; it
  carries the piece list and the bytes consumed
  (\<^verbatim>\<open>HeaderDecodeResult{outHeaders_, consumed}\<close>). The source returns a reference to
  the adapter's piece list; the record holds the list as it is at the return.
\<close>

record HeaderDecodeResult =
  headers :: "HeaderPiece list"
  bytesConsumed :: nat

subsection \<open>The compression engine\<close>

text \<open>
  Modelled from the spec: an engine instance is bound to its role when it is
  constructed (\<^verbatim>\<open>HPACKEncoder(encoderType, true)\<close>, \<^verbatim>\<open>HPACKDecoder(decoderType)\<close>)
  and keeps a connection state of its own (the dynamic table) that every call
  may change. An instance is its constructor arguments and that state.
\<close>

record 'es HPACKEncoder =
  encoderType :: MessageType
  huffman :: bool
  encoderState :: 'es

record 'ds HPACKDecoder =
  decoderType :: MessageType
  decoderState :: 'ds

text \<open>
  The engine's operations are parameters of the model:
  \<^item> \<open>newEncoder\<close>, \<open>newDecoder\<close>: the connection state of a fresh instance;
  \<^item> \<open>encoderEncode enc headers headroom\<close>: the buffer (or null) and the
    encoder's next state;
  \<^item> \<open>decoderDecode dec cursor length headers\<close>: the bytes consumed, the header
    list passed by reference as the call leaves it, the cursor as the call
    leaves it, and the decoder's next state;
  \<^item> \<open>hasError\<close>, \<open>getError\<close>: the decoder's error state.
\<close>

record ('es, 'ds, 'x) Engine =
  newEncoder :: "MessageType \<Rightarrow> bool \<Rightarrow> 'es"
  newDecoder :: "MessageType \<Rightarrow> 'ds"
  encoderEncode :: "'es HPACKEncoder \<Rightarrow> HPACKHeader list \<Rightarrow> nat \<Rightarrow> IOBuf option \<times> 'es"
  decoderDecode :: "'ds HPACKDecoder \<Rightarrow> Cursor \<Rightarrow> 32 word \<Rightarrow> HPACKHeader list
                      \<Rightarrow> nat \<times> HPACKHeader list \<times> Cursor \<times> 'ds"
  hasError :: "'ds HPACKDecoder \<Rightarrow> bool"
  getError :: "'ds HPACKDecoder \<Rightarrow> 'x Error"

subsection \<open>The adapter's state and its constructor\<close>

text \<open>
  Modelled from the spec: the members of \<^verbatim>\<open>HPACKCodec\<close> are declared in
  HPACKCodec.h and HeaderCodec.h. They are the ones the source file uses,
  named as there without the trailing underscore (\<^verbatim>\<open>encoder_\<close> is \<open>encoder\<close>,
  and so on).
\<close>

record ('es, 'ds) HPACKCodec =
  encoder :: "'es HPACKEncoder"
  decoder :: "'ds HPACKDecoder"
  encodeHeadroom :: nat
  encodedSize :: HTTPHeaderSize
  decodedSize :: HTTPHeaderSize
  stats :: "StatsEvent list option"
  outHeaders :: "HeaderPiece list"
  decodedHeaders :: "HPACKHeader list"

text \<open>
  \<^verbatim>\<open>HPACKCodec::HPACKCodec(TransportDirection direction)\<close>: the two roles are
  chosen from the direction and passed to the engine's constructors.
\<close>

text \<open>
  Modelled from the spec: the members the constructor body does not set are
  initialised in HPACKCodec.h and HeaderCodec.h; they start as no headroom,
  zero sizes, no stats recorder and empty scratch lists.
\<close>

definition HPACKCodec_new ::
  "('es, 'ds, 'x) Engine \<Rightarrow> TransportDirection \<Rightarrow> ('es, 'ds) HPACKCodec" where
  "HPACKCodec_new E direction =
     (let (decoderType', encoderType') =
            (if direction = DOWNSTREAM then (REQ, RESP) else (RESP, REQ))
      in \<lparr>encoder = \<lparr>encoderType = encoderType', huffman = True,
                       encoderState = newEncoder E encoderType' True\<rparr>,
          decoder = \<lparr>decoderType = decoderType',
                       decoderState = newDecoder E decoderType'\<rparr>,
          encodeHeadroom = 0,
          encodedSize = \<lparr>compressed = 0, uncompressed = 0\<rparr>,
          decodedSize = \<lparr>compressed = 0, uncompressed = 0\<rparr>,
          stats = None,
          outHeaders = [],
          decodedHeaders = []\<rparr>)"

subsection \<open>encode\<close>

text \<open>
  Modelled from the spec: \<^verbatim>\<open>folly::toLowerAscii(char* str, size_t length)\<close> is
  not part of the source file. It is the ASCII-only lowercase transform, done
  in place on the first \<^verbatim>\<open>length\<close> characters at \<^verbatim>\<open>str\<close>: \<^verbatim>\<open>A\<close>..\<^verbatim>\<open>Z\<close> become
  \<^verbatim>\<open>a\<close>..\<^verbatim>\<open>z\<close> (the character code plus 32), every other byte stays. The
  pointer is the address of the string whose characters it points to.
\<close>

definition toLowerAscii_char :: "char \<Rightarrow> char" where
  "toLowerAscii_char c =
     (let n = (of_char c :: nat) in if 65 \<le> n \<and> n \<le> 90 then char_of (n + 32) else c)"

definition toLowerAscii :: "Heap \<Rightarrow> addr \<Rightarrow> nat \<Rightarrow> Heap" where
  "toLowerAscii heap str' len =
     heap[str' := map toLowerAscii_char (take len (heap ! str')) @ drop len (heap ! str')]"

text \<open>
  The loop of \<^verbatim>\<open>encode\<close> over the caller's headers. \<open>header\<close> is the local
  object built from \<^verbatim>\<open>*h.name\<close> and \<^verbatim>\<open>*h.value\<close>; \<open>mutableName\<close> is the pointer
  \<^verbatim>\<open>const_cast<char*>(header.name.data())\<close>, that is the buffer of \<open>header\<close>'s
  name, shared or not; \<open>converted\<close> is the vector built for the engine
  (\<^verbatim>\<open>push_back\<close> copy-constructs \<open>header\<close> into it); \<open>uncompressed'\<close> is the
  \<^verbatim>\<open>uint32_t\<close> counter: the sizes are added as \<^verbatim>\<open>size_t\<close> and the sum is cut to
  32 bits by the assignment. Reading through a pointer that leads to nothing
  in the store is undefined behaviour: the result is \<open>None\<close>. The destruction
  of \<open>header\<close> at the end of an iteration is not modelled: buffers that were
  allocated stay in the store, behind the caller's.
\<close>

fun encode_loop ::
  "StringImpl \<Rightarrow> Heap \<Rightarrow> Header list \<Rightarrow> (addr \<times> addr) list \<Rightarrow> 32 word
     \<Rightarrow> (Heap \<times> (addr \<times> addr) list \<times> 32 word) option" where
  "encode_loop impl heap [] converted uncompressed' = Some (heap, converted, uncompressed')"
| "encode_loop impl heap (h # rest) converted uncompressed' =
     (if Header.name h < length heap \<and> Header.value h < length heap then
        (let ((headerName, headerValue), heap) =
                HPACKHeader_new impl heap (Header.name h) (Header.value h);
             mutableName = headerName;
             heap = toLowerAscii heap mutableName (length (heap ! headerName));
             (pushed, heap) = HPACKHeader_new impl heap headerName headerValue;
             converted = converted @ [pushed];
             uncompressed' = uncompressed' +
               of_nat (length (heap ! headerName) + length (heap ! headerValue) + 2)
         in encode_loop impl heap rest converted uncompressed')
      else None)"

text \<open>
  \<^verbatim>\<open>HPACKCodec::encode(vector<Header>& headers)\<close>, on the store \<open>heap\<close> that
  holds the caller's strings. The engine reads the headers of \<open>converted\<close> in
  the store as the loop leaves it. The result is the buffer (or null), the
  store as the call leaves it and the adapter's next state.
\<close>

definition encode ::
  "StringImpl \<Rightarrow> ('es, 'ds, 'x) Engine \<Rightarrow> ('es, 'ds) HPACKCodec \<Rightarrow> Heap \<Rightarrow> Header list
     \<Rightarrow> (IOBuf option \<times> Heap \<times> ('es, 'ds) HPACKCodec) option" where
  "encode impl E s heap hdrs =
     (case encode_loop impl heap hdrs [] 0 of
        None \<Rightarrow> None
      | Some (heap, converted, uncompressed') \<Rightarrow>
          (let (buf, es) = encoderEncode E (encoder s) (map (loadConverted heap) converted)
                             (encodeHeadroom s);
               s = s\<lparr>encoder := (encoder s)\<lparr>encoderState := es\<rparr>\<rparr>;
               s = s\<lparr>encodedSize := (encodedSize s)\<lparr>compressed := 0\<rparr>\<rparr>;
               s = (case buf of
                      Some b \<Rightarrow> s\<lparr>encodedSize :=
                                  (encodedSize s)\<lparr>compressed := computeChainDataLength b\<rparr>\<rparr>
                    | None \<Rightarrow> s);
               s = s\<lparr>encodedSize := (encodedSize s)\<lparr>uncompressed := unat uncompressed'\<rparr>\<rparr>;
               s = (case stats s of
                      Some events \<Rightarrow>
                        s\<lparr>stats := Some (events @ [recordEncode HPACK (encodedSize s)])\<rparr>
                    | None \<Rightarrow> s)
           in Some (buf, heap, s)))"

subsection \<open>decode\<close>

text \<open>
  The loop of \<^verbatim>\<open>decode\<close> over \<^verbatim>\<open>decodedHeaders_\<close>. Its index \<^verbatim>\<open>i\<close> is a \<^verbatim>\<open>uint32_t\<close>
  compared with the vector's \<^verbatim>\<open>size_t\<close> size, so \<^verbatim>\<open>i++\<close> wraps to 0 before it can
  reach a size of \<open>2 ^ 32\<close> or more and the loop then never ends: not returning
  is the value \<open>None\<close>.
\<close>

partial_function (option) decode_loop ::
  "HPACKHeader list \<Rightarrow> 32 word \<Rightarrow> HeaderPiece list \<Rightarrow> 32 word
     \<Rightarrow> (HeaderPiece list \<times> 32 word) option" where
  "decode_loop decodedHeaders' i outHeaders' uncompressed' =
     (if unat i < length decodedHeaders' then
        (let h = decodedHeaders' ! unat i;
             isMultiValued = True;
             outHeaders' = outHeaders' @
               [HeaderPiece_new (HPACKHeader.name h) (length (HPACKHeader.name h)) False isMultiValued];
             outHeaders' = outHeaders' @
               [HeaderPiece_new (HPACKHeader.value h) (length (HPACKHeader.value h)) False isMultiValued];
             uncompressed' = uncompressed' +
               of_nat (length (HPACKHeader.name h) + length (HPACKHeader.value h) + 2)
         in decode_loop decodedHeaders' (i + 1) outHeaders' uncompressed')
      else Some (outHeaders', uncompressed'))"

text \<open>
  \<^verbatim>\<open>HPACKCodec::decode(Cursor& cursor, uint32_t length)\<close>. The result is
  \<open>Inl\<close> an error kind or \<open>Inr\<close> the success data, together with the cursor
  and the adapter's next state. The \<^verbatim>\<open>LOG(ERROR)\<close> line writes the engine's
  table to the process log and touches nothing of the adapter; it is left out.
\<close>

definition decode ::
  "('es, 'ds, 'x) Engine \<Rightarrow> ('es, 'ds) HPACKCodec \<Rightarrow> Cursor \<Rightarrow> 32 word
     \<Rightarrow> ((HeaderDecodeError + HeaderDecodeResult) \<times> Cursor \<times> ('es, 'ds) HPACKCodec) option" where
  "decode E s cursor len =
     (let s = s\<lparr>outHeaders := []\<rparr>;
          s = s\<lparr>decodedHeaders := []\<rparr>;
          (consumed, decoded, cursor, ds) =
             decoderDecode E (decoder s) cursor len (decodedHeaders s);
          s = s\<lparr>decoder := (decoder s)\<lparr>decoderState := ds\<rparr>, decodedHeaders := decoded\<rparr>
      in if hasError E (decoder s) then
           (let s = (case stats s of
                       Some events \<Rightarrow> s\<lparr>stats := Some (events @ [recordDecodeError HPACK])\<rparr>
                     | None \<Rightarrow> s)
            in if getError E (decoder s) = Error.HEADERS_TOO_LARGE
               then Some (Inl HeaderDecodeError.HEADERS_TOO_LARGE, cursor, s)
               else Some (Inl HeaderDecodeError.BAD_ENCODING, cursor, s))
         else
           (case decode_loop (decodedHeaders s) 0 (outHeaders s) 0 of
              None \<Rightarrow> None
            | Some (out, uncompressed') \<Rightarrow>
                (let s = s\<lparr>outHeaders := out\<rparr>;
                     s = s\<lparr>decodedSize := (decodedSize s)\<lparr>compressed := consumed\<rparr>\<rparr>;
                     s = s\<lparr>decodedSize := (decodedSize s)\<lparr>uncompressed := unat uncompressed'\<rparr>\<rparr>;
                     s = (case stats s of
                            Some events \<Rightarrow>
                              s\<lparr>stats := Some (events @ [recordDecode HPACK (decodedSize s)])\<rparr>
                          | None \<Rightarrow> s)
                 in Some (Inr \<lparr>headers = outHeaders s, bytesConsumed = consumed\<rparr>, cursor, s))))"

subsection \<open>Reachable adapter states\<close>

text \<open>
  The states an adapter built for \<open>direction\<close> can be in: the constructed
  state, and every state a returning \<^verbatim>\<open>encode\<close> (with either string
  implementation) or \<^verbatim>\<open>decode\<close> call leaves.
\<close>

text \<open>
  Modelled from the spec: the setters are declared in HeaderCodec.h. The stats
  recorder can be attached and detached and the headroom configured between
  calls.
\<close>

inductive reachable ::
  "('es, 'ds, 'x) Engine \<Rightarrow> TransportDirection \<Rightarrow> ('es, 'ds) HPACKCodec \<Rightarrow> bool"
  for E :: "('es, 'ds, 'x) Engine" and direction :: TransportDirection where
  constructed: "reachable E direction (HPACKCodec_new E direction)"
| encoded: "reachable E direction s \<Longrightarrow> encode impl E s heap hdrs = Some (buf, heap', s')
     \<Longrightarrow> reachable E direction s'"
| decoded: "reachable E direction s \<Longrightarrow> decode E s cursor len = Some (r, cursor', s')
     \<Longrightarrow> reachable E direction s'"
| setStats: "reachable E direction s \<Longrightarrow> reachable E direction (s\<lparr>stats := recorder\<rparr>)"
| setEncodeHeadroom: "reachable E direction s
     \<Longrightarrow> reachable E direction (s\<lparr>encodeHeadroom := headroom\<rparr>)"

subsection \<open>The specification's vocabulary\<close>

text \<open>
  The notions the specification states its properties with, defined from its
  words and compared with the code below.
\<close>

text \<open>The uncompressed size of a header set: name length + value length + 2, summed.\<close>

definition spec_uncompressed :: "HPACKHeader list \<Rightarrow> nat" where
  "spec_uncompressed hs =
     sum_list (map (\<lambda>h. length (HPACKHeader.name h) + length (HPACKHeader.value h) + 2) hs)"

text \<open>
  The ASCII-lowercase transform of a name: each of the 26 capital letters is
  replaced by its small letter, every other character is kept.
\<close>

definition spec_lower_char :: "char \<Rightarrow> char" where
  "spec_lower_char c =
     (case map_of (zip ''ABCDEFGHIJKLMNOPQRSTUVWXYZ'' ''abcdefghijklmnopqrstuvwxyz'') c of
        Some l \<Rightarrow> l
      | None \<Rightarrow> c)"

definition spec_lowercase :: "string \<Rightarrow> string" where
  "spec_lowercase n = map spec_lower_char n"

text \<open>The header the engine is to receive for a caller's header.\<close>

definition spec_normalized :: "Heap \<Rightarrow> Header \<Rightarrow> HPACKHeader" where
  "spec_normalized heap h =
     \<lparr>HPACKHeader.name = spec_lowercase (heap ! Header.name h),
      HPACKHeader.value = heap ! Header.value h\<rparr>"

text \<open>The two pieces of a decoded header: the name piece, then the value piece.\<close>

definition spec_pieces :: "HPACKHeader \<Rightarrow> HeaderPiece list" where
  "spec_pieces h =
     [\<lparr>str = HPACKHeader.name h, owner = False, multiValued = True\<rparr>,
      \<lparr>str = HPACKHeader.value h, owner = False, multiValued = True\<rparr>]"

text \<open>Every pointer of the caller's list is a live string.\<close>

definition validHeader :: "Heap \<Rightarrow> Header \<Rightarrow> bool" where
  "validHeader heap h = (Header.name h < length heap \<and> Header.value h < length heap)"

definition validHeaders :: "Heap \<Rightarrow> Header list \<Rightarrow> bool" where
  "validHeaders heap hdrs = list_all (validHeader heap) hdrs"


text \<open>The caller's header as the pair of strings its pointers lead to.\<close>

definition loadHeader :: "Heap \<Rightarrow> Header \<Rightarrow> HPACKHeader" where
  "loadHeader heap h =
     \<lparr>HPACKHeader.name = heap ! Header.name h, HPACKHeader.value = heap ! Header.value h\<rparr>"

text \<open>
  What the code computes, in closed form. With copying strings every
  iteration of \<^verbatim>\<open>encode\<close>'s loop puts four buffers behind the store (the two of
  \<open>header\<close>, its name in lowercase, and the two of the element of
  \<open>converted\<close>), the elements of \<open>converted\<close> are at \<open>copyAddrs\<close>, and the
  engine reads the caller's headers with the names in lowercase. With
  reference-counted strings no buffer is added: every buffer that a name
  pointer of the list leads to is rewritten in lowercase (\<open>lowerNames\<close>), the
  elements of \<open>converted\<close> are the caller's own pointers, and the engine
  reads the caller's headers in the rewritten store.
\<close>

definition transient :: "Heap \<Rightarrow> Header list \<Rightarrow> string list" where
  "transient heap hdrs =
     concat (map (\<lambda>h. [spec_lowercase (heap ! Header.name h), heap ! Header.value h,
                        spec_lowercase (heap ! Header.name h), heap ! Header.value h]) hdrs)"

fun copyAddrs :: "nat \<Rightarrow> Header list \<Rightarrow> (addr \<times> addr) list" where
  "copyAddrs base [] = []"
| "copyAddrs base (h # hs) = (base + 2, base + 3) # copyAddrs (base + 4) hs"

fun lowerNames :: "Heap \<Rightarrow> Header list \<Rightarrow> Heap" where
  "lowerNames heap [] = heap"
| "lowerNames heap (h # hs) =
     lowerNames (heap[Header.name h := spec_lowercase (heap ! Header.name h)]) hs"

definition finalHeap :: "StringImpl \<Rightarrow> Heap \<Rightarrow> Header list \<Rightarrow> Heap" where
  "finalHeap impl heap hdrs =
     (case impl of
        RefCounted \<Rightarrow> lowerNames heap hdrs
      | Copying \<Rightarrow> heap @ transient heap hdrs)"

definition engineInput :: "StringImpl \<Rightarrow> Heap \<Rightarrow> Header list \<Rightarrow> HPACKHeader list" where
  "engineInput impl heap hdrs =
     (case impl of
        RefCounted \<Rightarrow> map (loadHeader (lowerNames heap hdrs)) hdrs
      | Copying \<Rightarrow> map (spec_normalized heap) hdrs)"

text \<open>
  The size tuples the two operations record (the uncompressed count is the
  32-bit counter's value).
\<close>

definition encodedSizeOf :: "IOBuf option \<Rightarrow> HPACKHeader list \<Rightarrow> HTTPHeaderSize" where
  "encodedSizeOf buf converted =
     \<lparr>compressed = (case buf of None \<Rightarrow> 0 | Some b \<Rightarrow> computeChainDataLength b),
      uncompressed = spec_uncompressed converted mod 2 ^ 32\<rparr>"

definition decodedSizeOf :: "nat \<Rightarrow> HPACKHeader list \<Rightarrow> HTTPHeaderSize" where
  "decodedSizeOf consumed decoded =
     \<lparr>compressed = consumed, uncompressed = spec_uncompressed decoded mod 2 ^ 32\<rparr>"

subsection \<open>A fake engine\<close>

text \<open>
  A small deterministic engine to run the adapter on. Its encoder writes one
  segment per header (a single byte, the length of the name), produces no
  buffer for an empty header set, and keeps as its state the header lists it
  was given, oldest first. Its decoder reads \<open>length\<close> bytes, one header per
  byte: it reports another error when the cursor is too short,
  headers-too-large for a block of more than three bytes, and otherwise
  appends the headers.
\<close>

definition fakeHeader :: "8 word \<Rightarrow> HPACKHeader" where
  "fakeHeader b =
     (if b = 0 then \<lparr>HPACKHeader.name = ''host'', HPACKHeader.value = ''a.example''\<rparr>
      else \<lparr>HPACKHeader.name = ''accept'', HPACKHeader.value = ''*/*''\<rparr>)"

definition fakeEncode ::
  "(HPACKHeader list list) HPACKEncoder \<Rightarrow> HPACKHeader list \<Rightarrow> nat
     \<Rightarrow> IOBuf option \<times> HPACKHeader list list" where
  "fakeEncode enc hs headroom =
     (if hs = [] then None else Some (map (\<lambda>h. [of_nat (length (HPACKHeader.name h))]) hs),
      encoderState enc @ [hs])"

definition fakeDecode ::
  "(nat Error option) HPACKDecoder \<Rightarrow> Cursor \<Rightarrow> 32 word \<Rightarrow> HPACKHeader list
     \<Rightarrow> nat \<times> HPACKHeader list \<times> Cursor \<times> nat Error option" where
  "fakeDecode dec cursor len hs =
     (if length cursor < unat len then (0, hs, cursor, Some (OTHER 7))
      else if 3 < unat len then (0, hs, cursor, Some Error.HEADERS_TOO_LARGE)
      else (unat len, hs @ map fakeHeader (take (unat len) cursor), drop (unat len) cursor, None))"

definition fakeEngine :: "(HPACKHeader list list, nat Error option, nat) Engine" where
  "fakeEngine =
     \<lparr>newEncoder = (\<lambda>t h. []),
      newDecoder = (\<lambda>t. None),
      encoderEncode = fakeEncode,
      decoderDecode = fakeDecode,
      hasError = (\<lambda>dec. decoderState dec \<noteq> None),
      getError = (\<lambda>dec. case decoderState dec of Some e \<Rightarrow> e | None \<Rightarrow> OTHER 0)\<rparr>"

text \<open>
  The header list of the specification's end-to-end example, \<^verbatim>\<open>X-Test: 1\<close> and
  \<^verbatim>\<open>x-test: 2\<close>, as strings in a store and the pointers to them; a header
  whose name and value pointers lead to the same string \<^verbatim>\<open>AbC\<close>; and a store
  whose first string has \<open>2 ^ 32 - 2\<close> characters, with one header on it.
\<close>

definition exampleHeap :: Heap where
  "exampleHeap = [''X-Test'', ''1'', ''x-test'', ''2'']"

definition exampleHeaders :: "Header list" where
  "exampleHeaders =
     [\<lparr>Header.name = 0, Header.value = 1\<rparr>, \<lparr>Header.name = 2, Header.value = 3\<rparr>]"

definition aliasHeap :: Heap where
  "aliasHeap = [''AbC'']"

definition aliasHeaders :: "Header list" where
  "aliasHeaders = [\<lparr>Header.name = 0, Header.value = 0\<rparr>]"

definition hugeHeap :: Heap where
  "hugeHeap = [replicate 4294967294 (CHR ''a''), []]"

definition hugeHeaders :: "Header list" where
  "hugeHeaders = [\<lparr>Header.name = 0, Header.value = 1\<rparr>]"

section \<open>The loops and the two operations in closed form\<close>

lemma upper_list:
  "list_all (\<lambda>n. spec_lower_char (char_of n) = char_of (n + 32)) [65..<91::nat]"
  by code_simp

lemma upper_chars: "map of_char ''ABCDEFGHIJKLMNOPQRSTUVWXYZ'' = [65..<91::nat]"
  by code_simp

lemma spec_lower_char_upper:
  assumes "65 \<le> (of_char c :: nat)" "(of_char c :: nat) \<le> 90"
  shows "spec_lower_char c = char_of (of_char c + 32 :: nat)"
proof -
  have "(of_char c :: nat) \<in> set [65..<91]"
    using assms by (simp only: set_upt atLeastLessThan_iff) arith
  with upper_list
  have "spec_lower_char (char_of (of_char c :: nat)) = char_of (of_char c + 32 :: nat)"
    unfolding list_all_iff by blast
  then show ?thesis by simp
qed

lemma spec_lower_char_other:
  assumes "\<not> (65 \<le> (of_char c :: nat) \<and> (of_char c :: nat) \<le> 90)"
  shows "spec_lower_char c = c"
proof -
  have "(of_char c :: nat) \<notin> set [65..<91]"
    using assms by (simp only: set_upt atLeastLessThan_iff) arith
  moreover have "set [65..<91::nat] = of_char ` set ''ABCDEFGHIJKLMNOPQRSTUVWXYZ''"
    by (simp only: upper_chars[symmetric] set_map)
  ultimately have "c \<notin> set ''ABCDEFGHIJKLMNOPQRSTUVWXYZ''" by blast
  then have "map_of (zip ''ABCDEFGHIJKLMNOPQRSTUVWXYZ'' ''abcdefghijklmnopqrstuvwxyz'') c = None"
    by (subst map_of_zip_is_None) simp_all
  then show ?thesis by (simp add: spec_lower_char_def)
qed

text \<open>The code's character transform is the specification's.\<close>

lemma toLowerAscii_char_spec: "toLowerAscii_char c = spec_lower_char c"
  by (simp add: toLowerAscii_char_def Let_def spec_lower_char_upper spec_lower_char_other)

lemma length_spec_lowercase: "length (spec_lowercase n) = length n"
  by (simp add: spec_lowercase_def)

lemma spec_lower_char_idem: "spec_lower_char (spec_lower_char c) = spec_lower_char c"
proof (cases "65 \<le> (of_char c :: nat) \<and> (of_char c :: nat) \<le> 90")
  case True
  then have c: "spec_lower_char c = char_of (of_char c + 32 :: nat)"
    by (simp add: spec_lower_char_upper)
  have "of_char (char_of (of_char c + 32 :: nat)) = (of_char c + 32 :: nat)"
    using True by simp
  then have "\<not> (65 \<le> (of_char (char_of (of_char c + 32 :: nat)) :: nat) \<and>
               (of_char (char_of (of_char c + 32 :: nat)) :: nat) \<le> 90)"
    using True by simp
  then show ?thesis unfolding c by (rule spec_lower_char_other)
next
  case False
  then show ?thesis by (simp add: spec_lower_char_other)
qed

lemma spec_lowercase_idem: "spec_lowercase (spec_lowercase n) = spec_lowercase n"
  by (simp add: spec_lowercase_def spec_lower_char_idem)

lemma toLowerAscii_whole:
  "a < length heap \<Longrightarrow>
     toLowerAscii heap a (length (heap ! a)) = heap[a := spec_lowercase (heap ! a)]"
  by (simp add: toLowerAscii_def spec_lowercase_def toLowerAscii_char_spec cong: map_cong)

text \<open>
  The loop of \<^verbatim>\<open>encode\<close> with copying strings: one iteration, and the whole
  loop on a list of pointers into the caller's store. \<open>extra\<close> is what earlier
  iterations have put behind the caller's store.
\<close>

lemma encode_step_copying:
  assumes "Header.name h < length heap" "Header.value h < length heap"
  shows "encode_loop Copying (heap @ extra) (h # rest) converted unc =
     encode_loop Copying
       (heap @ (extra @ [spec_lowercase (heap ! Header.name h), heap ! Header.value h,
                         spec_lowercase (heap ! Header.name h), heap ! Header.value h])) rest
       (converted @ [(length heap + length extra + 2, length heap + length extra + 3)])
       (unc + of_nat (spec_uncompressed [loadHeader heap h]))"
  using assms
  by (simp add: HPACKHeader_new_def string_copy_def alloc_def toLowerAscii_def Let_def nth_append
      spec_lowercase_def loadHeader_def spec_uncompressed_def list_update_append
      toLowerAscii_char_spec eval_nat_numeral cong: map_cong)

lemma encode_loop_copying:
  "validHeaders heap hdrs \<Longrightarrow>
   encode_loop Copying (heap @ extra) hdrs converted unc =
     Some (heap @ extra @ transient heap hdrs,
           converted @ copyAddrs (length heap + length extra) hdrs,
           unc + of_nat (spec_uncompressed (map (loadHeader heap) hdrs)))"
proof (induction hdrs arbitrary: extra converted unc)
  case Nil
  then show ?case by (simp add: transient_def spec_uncompressed_def)
next
  case (Cons h rest)
  then have v: "Header.name h < length heap" "Header.value h < length heap"
    and r: "validHeaders heap rest"
    by (simp_all add: validHeaders_def validHeader_def)
  show ?case
    unfolding encode_step_copying[OF v] Cons.IH[OF r]
    by (simp add: transient_def spec_uncompressed_def eval_nat_numeral ac_simps)
qed

lemma load_copyAddrs:
  "validHeaders heap hdrs \<Longrightarrow>
   map (loadConverted (heap @ extra @ transient heap hdrs @ rest'))
       (copyAddrs (length heap + length extra) hdrs) =
   map (spec_normalized heap) hdrs"
proof (induction hdrs arbitrary: extra)
  case Nil
  then show ?case by simp
next
  case (Cons h rest)
  then have r: "validHeaders heap rest"
    by (simp add: validHeaders_def)
  let ?four = "[spec_lowercase (heap ! Header.name h), heap ! Header.value h,
                spec_lowercase (heap ! Header.name h), heap ! Header.value h]"
  have t: "transient heap (h # rest) = ?four @ transient heap rest"
    by (simp add: transient_def)
  have hd: "loadConverted (heap @ extra @ (?four @ transient heap rest) @ rest')
              (length heap + length extra + 2, length heap + length extra + 3) =
            spec_normalized heap h"
    by (simp add: loadConverted_def spec_normalized_def nth_append)
  have tl: "map (loadConverted (heap @ (extra @ ?four) @ transient heap rest @ rest'))
              (copyAddrs (length heap + length (extra @ ?four)) rest) =
            map (spec_normalized heap) rest"
    by (rule Cons.IH[OF r])
  show ?case
    unfolding t using hd tl by (simp add: eval_nat_numeral)
qed

text \<open>The loop of \<^verbatim>\<open>encode\<close> with reference-counted strings.\<close>

lemma validHeader_update: "validHeader (heap[a := x]) = validHeader heap"
  by (rule ext) (simp add: validHeader_def)

lemma validHeaders_update:
  "validHeaders (heap[a := x]) hdrs = validHeaders heap hdrs"
  by (simp add: validHeaders_def validHeader_update)

lemma length_nth_update_lower:
  "length (heap[a := spec_lowercase (heap ! a)] ! b) = length (heap ! b)"
proof (cases "a < length heap")
  case True
  then show ?thesis by (cases "a = b") (simp_all add: length_spec_lowercase)
next
  case False
  then show ?thesis by (simp add: list_update_beyond)
qed

lemma spec_uncompressed_update_lower:
  "spec_uncompressed (map (loadHeader (heap[a := spec_lowercase (heap ! a)])) hdrs) =
   spec_uncompressed (map (loadHeader heap) hdrs)"
  by (simp add: spec_uncompressed_def loadHeader_def comp_def length_nth_update_lower)

lemma encode_step_refcounted:
  assumes "Header.name h < length heap" "Header.value h < length heap"
  shows "encode_loop RefCounted heap (h # rest) converted unc =
     encode_loop RefCounted (heap[Header.name h := spec_lowercase (heap ! Header.name h)]) rest
       (converted @ [(Header.name h, Header.value h)])
       (unc + of_nat (spec_uncompressed [loadHeader heap h]))"
  using assms
  by (simp add: HPACKHeader_new_def string_copy_def Let_def toLowerAscii_whole
      loadHeader_def spec_uncompressed_def length_nth_update_lower length_spec_lowercase)

lemma encode_loop_refcounted:
  "validHeaders heap hdrs \<Longrightarrow>
   encode_loop RefCounted heap hdrs converted unc =
     Some (lowerNames heap hdrs,
           converted @ map (\<lambda>h. (Header.name h, Header.value h)) hdrs,
           unc + of_nat (spec_uncompressed (map (loadHeader heap) hdrs)))"
proof (induction hdrs arbitrary: heap converted unc)
  case Nil
  then show ?case by (simp add: spec_uncompressed_def)
next
  case (Cons h rest)
  then have v: "Header.name h < length heap" "Header.value h < length heap"
    and r: "validHeaders (heap[Header.name h := spec_lowercase (heap ! Header.name h)]) rest"
    unfolding validHeaders_update by (simp_all add: validHeaders_def validHeader_def)
  have s: "spec_uncompressed (map (loadHeader heap) (h # rest)) =
           spec_uncompressed [loadHeader heap h] +
           spec_uncompressed
             (map (loadHeader (heap[Header.name h := spec_lowercase (heap ! Header.name h)])) rest)"
    unfolding spec_uncompressed_update_lower by (simp add: spec_uncompressed_def)
  show ?case
    unfolding encode_step_refcounted[OF v] Cons.IH[OF r] s
    by (simp add: add.assoc)
qed


text \<open>
  With reference-counted strings a buffer of the caller's ends in lowercase
  exactly when a name pointer of the list leads to it.
\<close>

lemma lowerNames_nth:
  "a < length heap \<Longrightarrow>
   lowerNames heap hdrs ! a =
     (if a \<in> Header.name ` set hdrs then spec_lowercase (heap ! a) else heap ! a)"
proof (induction hdrs arbitrary: heap)
  case Nil
  then show ?case by simp
next
  case (Cons h rest)
  let ?heap1 = "heap[Header.name h := spec_lowercase (heap ! Header.name h)]"
  from Cons.prems have "a < length ?heap1" by simp
  from Cons.IH[OF this] Cons.prems show ?case
    by (cases "a = Header.name h") (simp_all add: spec_lowercase_idem)
qed

text \<open>The sequence handed to the engine and the store left, for both implementations.\<close>

lemma encode_loop_valid:
  assumes "validHeaders heap hdrs"
  shows "\<exists>converted.
     encode_loop impl heap hdrs [] 0 =
       Some (finalHeap impl heap hdrs, converted,
             of_nat (spec_uncompressed (map (loadHeader heap) hdrs))) \<and>
     map (loadConverted (finalHeap impl heap hdrs)) converted = engineInput impl heap hdrs"
proof (cases impl)
  case RefCounted
  have "map (loadConverted (lowerNames heap hdrs)) (map (\<lambda>h. (Header.name h, Header.value h)) hdrs) =
        map (loadHeader (lowerNames heap hdrs)) hdrs"
    by (simp add: loadConverted_def loadHeader_def)
  with encode_loop_refcounted[OF assms, of "[]" 0] show ?thesis
    by (simp add: RefCounted finalHeap_def engineInput_def)
next
  case Copying
  from load_copyAddrs[OF assms, of "[]" "[]"] encode_loop_copying[OF assms, of "[]" "[]" 0]
  show ?thesis
    by (simp add: Copying finalHeap_def engineInput_def)
qed

text \<open>\<^verbatim>\<open>encode\<close> on a list of pointers into the caller's store.\<close>

lemma encode_valid:
  assumes "validHeaders heap hdrs"
    and "encoderEncode E (encoder s) (engineInput impl heap hdrs) (encodeHeadroom s) = (buf, es)"
  shows "encode impl E s heap hdrs =
     Some (buf, finalHeap impl heap hdrs,
           s\<lparr>encoder := (encoder s)\<lparr>encoderState := es\<rparr>,
             encodedSize := encodedSizeOf buf (map (loadHeader heap) hdrs),
             stats := map_option
               (\<lambda>events. events @
                  [recordEncode HPACK (encodedSizeOf buf (map (loadHeader heap) hdrs))])
               (stats s)\<rparr>)"
proof -
  from encode_loop_valid[OF assms(1), of impl] obtain converted where
    loop: "encode_loop impl heap hdrs [] 0 =
      Some (finalHeap impl heap hdrs, converted,
            of_nat (spec_uncompressed (map (loadHeader heap) hdrs)))"
    and inp: "map (loadConverted (finalHeap impl heap hdrs)) converted = engineInput impl heap hdrs"
    by blast
  show ?thesis
    unfolding encode_def loop
    by (cases buf; cases "stats s")
       (simp_all add: inp assms(2) encodedSizeOf_def unat_of_nat)
qed

lemma encode_valid_ex:
  assumes "validHeaders heap hdrs"
  shows "encode impl E s heap hdrs =
     Some (fst (encoderEncode E (encoder s) (engineInput impl heap hdrs) (encodeHeadroom s)),
           finalHeap impl heap hdrs,
           s\<lparr>encoder := (encoder s)\<lparr>encoderState :=
                snd (encoderEncode E (encoder s) (engineInput impl heap hdrs) (encodeHeadroom s))\<rparr>,
             encodedSize := encodedSizeOf
                (fst (encoderEncode E (encoder s) (engineInput impl heap hdrs) (encodeHeadroom s)))
                (map (loadHeader heap) hdrs),
             stats := map_option
               (\<lambda>events. events @
                  [recordEncode HPACK (encodedSizeOf
                     (fst (encoderEncode E (encoder s) (engineInput impl heap hdrs) (encodeHeadroom s)))
                     (map (loadHeader heap) hdrs))])
               (stats s)\<rparr>)"
  by (rule encode_valid[OF assms]) simp


text \<open>The loop of \<^verbatim>\<open>decode\<close> from index \<open>i\<close> on, for fewer than \<open>2 ^ 32\<close> headers.\<close>

lemma decode_loop_eq:
  assumes "length hs < 2 ^ 32" and "unat i \<le> length hs"
  shows "decode_loop hs i out unc =
           Some (out @ concat (map spec_pieces (drop (unat i) hs)),
                 unc + of_nat (spec_uncompressed (drop (unat i) hs)))"
  using assms(2)
proof (induction "length hs - unat i" arbitrary: i out unc)
  case 0
  then have "drop (unat i) hs = []" "\<not> unat i < length hs" by simp_all
  then show ?case by (subst decode_loop.simps) (simp add: spec_uncompressed_def)
next
  case (Suc k)
  then have lt: "unat i < length hs" by simp
  with assms(1) have "unat i + 1 < 2 ^ 32" by simp
  then have u: "unat (i + 1) = unat i + 1"
    by (simp add: unat_word_ariths)
  have d: "drop (unat i) hs = hs ! unat i # drop (unat i + 1) hs"
    using lt by (simp add: Cons_nth_drop_Suc)
  have k: "k = length hs - unat (i + 1)" using Suc(2) u by simp
  have le: "unat (i + 1) \<le> length hs" using lt u by simp
  show ?case
    apply (subst decode_loop.simps)
    apply (simp add: lt Let_def Suc(1)[OF k le] u d spec_pieces_def HeaderPiece_new_def
        spec_uncompressed_def add.assoc)
    done
qed

text \<open>The loop of \<^verbatim>\<open>decode\<close> returns only for fewer than \<open>2 ^ 32\<close> headers.\<close>

lemma decode_loop_returns_bound:
  assumes "decode_loop hs i out unc = Some y"
  shows "length hs < 2 ^ 32"
proof (rule decode_loop.raw_induct[where P = "\<lambda>hs i out unc y. length hs < 2 ^ 32", OF _ assms])
  fix f :: "HPACKHeader list \<Rightarrow> 32 word \<Rightarrow> HeaderPiece list \<Rightarrow> 32 word
              \<Rightarrow> (HeaderPiece list \<times> 32 word) option"
    and hs i out unc y
  assume IH: "\<And>hs i out unc y. f hs i out unc = Some y \<Longrightarrow> length hs < 2 ^ 32"
    and body: "(if unat i < length hs then
        (let h = hs ! unat i;
             isMultiValued = True;
             outHeaders' = out @
               [HeaderPiece_new (HPACKHeader.name h) (length (HPACKHeader.name h)) False isMultiValued];
             outHeaders' = outHeaders' @
               [HeaderPiece_new (HPACKHeader.value h) (length (HPACKHeader.value h)) False isMultiValued];
             uncompressed' = unc +
               of_nat (length (HPACKHeader.name h) + length (HPACKHeader.value h) + 2)
         in f hs (i + 1) outHeaders' uncompressed')
      else Some (out, unc)) = Some y"
  show "length hs < 2 ^ 32"
  proof (cases "unat i < length hs")
    case True
    with body obtain out' unc' where "f hs (i + 1) out' unc' = Some y"
      by (simp add: Let_def)
    then show ?thesis by (rule IH)
  next
    case False
    have "unat i < 2 ^ 32" using unsigned_less[of i] by simp
    with False show ?thesis by simp
  qed
qed

lemma decode_loop_diverges:
  assumes "2 ^ 32 \<le> length hs"
  shows "decode_loop hs i out unc = None"
proof (cases "decode_loop hs i out unc")
  case (Some y)
  from decode_loop_returns_bound[OF this] assms show ?thesis by simp
qed simp

text \<open>\<^verbatim>\<open>decode\<close> on its error path, on its success path, and where it does not return.\<close>

lemma decode_error:
  assumes "decoderDecode E (decoder s) cursor len [] = (consumed, decoded, cursor', ds)"
    and "hasError E ((decoder s)\<lparr>decoderState := ds\<rparr>)"
  shows "decode E s cursor len =
     Some (Inl (if getError E ((decoder s)\<lparr>decoderState := ds\<rparr>) = Error.HEADERS_TOO_LARGE
                then HeaderDecodeError.HEADERS_TOO_LARGE else HeaderDecodeError.BAD_ENCODING),
           cursor',
           s\<lparr>outHeaders := [], decodedHeaders := decoded,
             decoder := (decoder s)\<lparr>decoderState := ds\<rparr>,
             stats := map_option (\<lambda>events. events @ [recordDecodeError HPACK]) (stats s)\<rparr>)"
  using assms by (cases "stats s") (simp_all add: decode_def)

lemma decode_success:
  assumes "decoderDecode E (decoder s) cursor len [] = (consumed, decoded, cursor', ds)"
    and "\<not> hasError E ((decoder s)\<lparr>decoderState := ds\<rparr>)"
    and "length decoded < 2 ^ 32"
  shows "decode E s cursor len =
     Some (Inr \<lparr>headers = concat (map spec_pieces decoded), bytesConsumed = consumed\<rparr>,
           cursor',
           s\<lparr>outHeaders := concat (map spec_pieces decoded), decodedHeaders := decoded,
             decoder := (decoder s)\<lparr>decoderState := ds\<rparr>,
             decodedSize := decodedSizeOf consumed decoded,
             stats := map_option
               (\<lambda>events. events @ [recordDecode HPACK (decodedSizeOf consumed decoded)]) (stats s)\<rparr>)"
proof -
  have loop: "decode_loop decoded 0 [] 0 =
      Some (concat (map spec_pieces decoded), of_nat (spec_uncompressed decoded))"
    using decode_loop_eq[OF assms(3), of 0 "[]" 0] by simp
  show ?thesis
    using assms(1,2) by (cases "stats s") (simp_all add: decode_def loop decodedSizeOf_def unat_of_nat)
qed

lemma decode_diverges:
  assumes "decoderDecode E (decoder s) cursor len [] = (consumed, decoded, cursor', ds)"
    and "\<not> hasError E ((decoder s)\<lparr>decoderState := ds\<rparr>)"
    and "2 ^ 32 \<le> length decoded"
  shows "decode E s cursor len = None"
  using assms(1,2) by (simp add: decode_def decode_loop_diverges[OF assms(3)])



text \<open>
  A returning \<^verbatim>\<open>decode\<close> took the error path or the success path; on the
  success path the engine decoded fewer than \<open>2 ^ 32\<close> headers.
\<close>

lemma decode_cases:
  assumes "decode E s cursor len = Some (r, c, s')"
  obtains (error) consumed decoded ds where
      "decoderDecode E (decoder s) cursor len [] = (consumed, decoded, c, ds)"
      "hasError E ((decoder s)\<lparr>decoderState := ds\<rparr>)"
    | (success) consumed decoded ds where
      "decoderDecode E (decoder s) cursor len [] = (consumed, decoded, c, ds)"
      "\<not> hasError E ((decoder s)\<lparr>decoderState := ds\<rparr>)"
      "length decoded < 2 ^ 32"
proof -
  obtain consumed decoded c' ds where
    e: "decoderDecode E (decoder s) cursor len [] = (consumed, decoded, c', ds)"
    by (metis prod_cases4)
  show thesis
  proof (cases "hasError E ((decoder s)\<lparr>decoderState := ds\<rparr>)")
    case True
    from decode_error[OF e True] assms have "c' = c" by simp
    with e True show thesis by (auto intro: error)
  next
    case False
    have l: "length decoded < 2 ^ 32"
    proof (rule ccontr)
      assume "\<not> length decoded < 2 ^ 32"
      then have "2 ^ 32 \<le> length decoded" by simp
      from decode_diverges[OF e False this] assms show False by simp
    qed
    from decode_success[OF e False l] assms have "c' = c" by simp
    with e False l show thesis by (auto intro: success)
  qed
qed


lemma decode_Inr:
  assumes "decode E s cursor len = Some (Inr res, cursor', s')"
    and "decoderDecode E (decoder s) cursor len [] = (consumed, decoded, c, ds)"
  shows "res = \<lparr>headers = concat (map spec_pieces decoded), bytesConsumed = consumed\<rparr> \<and>
    s' = s\<lparr>outHeaders := concat (map spec_pieces decoded), decodedHeaders := decoded,
             decoder := (decoder s)\<lparr>decoderState := ds\<rparr>,
             decodedSize := decodedSizeOf consumed decoded,
             stats := map_option
               (\<lambda>events. events @ [recordDecode HPACK (decodedSizeOf consumed decoded)]) (stats s)\<rparr> \<and>
    cursor' = c \<and> length decoded < 2 ^ 32 \<and>
    \<not> hasError E ((decoder s)\<lparr>decoderState := ds\<rparr>)"
  using assms(1)
proof (cases rule: decode_cases)
  case (error consumed' decoded' ds')
  from decode_error[OF this] assms(1) show ?thesis by simp
next
  case (success consumed' decoded' ds')
  with assms(2) have eq: "consumed' = consumed" "decoded' = decoded" "ds' = ds" "cursor' = c" by simp_all
  from decode_success[OF success] assms(1) success(2,3) show ?thesis
    unfolding eq by simp
qed

lemma decode_Inl:
  assumes "decode E s cursor len = Some (Inl e, cursor', s')"
    and "decoderDecode E (decoder s) cursor len [] = (consumed, decoded, c, ds)"
  shows "s' = s\<lparr>outHeaders := [], decodedHeaders := decoded,
             decoder := (decoder s)\<lparr>decoderState := ds\<rparr>,
             stats := map_option (\<lambda>events. events @ [recordDecodeError HPACK]) (stats s)\<rparr> \<and>
    hasError E ((decoder s)\<lparr>decoderState := ds\<rparr>)"
  using assms(1)
proof (cases rule: decode_cases)
  case (error consumed' decoded' ds')
  with assms(2) have eq: "consumed' = consumed" "decoded' = decoded" "ds' = ds" "cursor' = c" by simp_all
  from decode_error[OF error] assms(1) error(2) show ?thesis
    unfolding eq by simp
next
  case (success consumed' decoded' ds')
  from decode_success[OF this] assms(1) show ?thesis by simp
qed

lemma decode_scratch_independent:
  "decode E (s\<lparr>outHeaders := out, decodedHeaders := dh\<rparr>) cursor len = decode E s cursor len"
  by (simp add: decode_def)

lemma validHeaders_Nil: "validHeaders heap []"
  by (simp add: validHeaders_def)

lemma length_concat_pieces: "length (concat (map spec_pieces hs)) = 2 * length hs"
  by (induction hs) (simp_all add: spec_pieces_def)

lemma list_all_pieces: "list_all multiValued (concat (map spec_pieces hs))"
  by (induction hs) (simp_all add: spec_pieces_def)

lemma nth_concat_pieces:
  "i < length hs \<Longrightarrow>
     concat (map spec_pieces hs) ! (2 * i) =
       \<lparr>str = HPACKHeader.name (hs ! i), owner = False, multiValued = True\<rparr> \<and>
     concat (map spec_pieces hs) ! (2 * i + 1) =
       \<lparr>str = HPACKHeader.value (hs ! i), owner = False, multiValued = True\<rparr>"
proof (induction hs arbitrary: i)
  case Nil
  then show ?case by simp
next
  case (Cons h hs)
  show ?case
  proof (cases i)
    case 0
    then show ?thesis by (simp add: spec_pieces_def)
  next
    case (Suc j)
    with Cons.prems have "j < length hs" by simp
    from Cons.IH[OF this] Suc show ?thesis by (simp add: spec_pieces_def)
  qed
qed

section \<open>What the in-place write reaches\<close>

text \<open>
  The names handed to the engine are the caller's names in lowercase with
  either string implementation. The values, and the caller's store, depend on
  the implementation: with copying strings the values are handed over as they
  are and the caller's store is kept; with reference-counted strings every
  buffer that a name pointer leads to is left in lowercase, and a value whose
  pointer leads to such a buffer reaches the engine in lowercase.
\<close>

lemma engineInput_names:
  assumes "validHeaders heap hdrs"
  shows "map HPACKHeader.name (engineInput impl heap hdrs) =
           map (\<lambda>h. spec_lowercase (heap ! Header.name h)) hdrs"
proof (cases impl)
  case RefCounted
  have "\<And>h. h \<in> set hdrs \<Longrightarrow>
          lowerNames heap hdrs ! Header.name h = spec_lowercase (heap ! Header.name h)"
    using assms by (auto simp: validHeaders_def validHeader_def list_all_iff lowerNames_nth)
  then show ?thesis
    by (simp add: RefCounted engineInput_def loadHeader_def)
next
  case Copying
  then show ?thesis by (simp add: engineInput_def spec_normalized_def)
qed

lemma engineInput_values_copying:
  "map HPACKHeader.value (engineInput Copying heap hdrs) = map (\<lambda>h. heap ! Header.value h) hdrs"
  by (simp add: engineInput_def spec_normalized_def)

lemma engineInput_values_refcounted:
  assumes "validHeaders heap hdrs"
  shows "map HPACKHeader.value (engineInput RefCounted heap hdrs) =
           map (\<lambda>h. if Header.value h \<in> Header.name ` set hdrs
                     then spec_lowercase (heap ! Header.value h)
                     else heap ! Header.value h) hdrs"
proof -
  have "\<And>h. h \<in> set hdrs \<Longrightarrow>
          lowerNames heap hdrs ! Header.value h =
            (if Header.value h \<in> Header.name ` set hdrs
             then spec_lowercase (heap ! Header.value h) else heap ! Header.value h)"
    using assms by (auto simp: validHeaders_def validHeader_def list_all_iff lowerNames_nth)
  then show ?thesis
    by (simp add: engineInput_def loadHeader_def)
qed

lemma finalHeap_copying_prefix: "take (length heap) (finalHeap Copying heap hdrs) = heap"
  by (simp add: finalHeap_def)

lemma finalHeap_refcounted_nth:
  "a < length heap \<Longrightarrow>
   finalHeap RefCounted heap hdrs ! a =
     (if a \<in> Header.name ` set hdrs then spec_lowercase (heap ! a) else heap ! a)"
  by (simp add: finalHeap_def lowerNames_nth)

section \<open>The adapter on the fake engine\<close>

lemma fake_new_decoder:
  "decoder (HPACKCodec_new fakeEngine d) =
     \<lparr>decoderType = (if d = DOWNSTREAM then REQ else RESP), decoderState = None\<rparr>"
  by (simp add: HPACKCodec_new_def fakeEngine_def)

lemma fake_new_encoder:
  "encoder (HPACKCodec_new fakeEngine d) =
     \<lparr>encoderType = (if d = DOWNSTREAM then RESP else REQ), huffman = True, encoderState = []\<rparr>"
  by (simp add: HPACKCodec_new_def fakeEngine_def)

lemma fake_new_fields:
  "encodeHeadroom (HPACKCodec_new fakeEngine d) = 0"
  "stats (HPACKCodec_new fakeEngine d) = None"
  "decodedSize (HPACKCodec_new fakeEngine d) = \<lparr>compressed = 0, uncompressed = 0\<rparr>"
  by (simp_all add: HPACKCodec_new_def)

lemma example_valid: "validHeaders exampleHeap exampleHeaders"
  by (simp add: validHeaders_def validHeader_def exampleHeap_def exampleHeaders_def)

lemma example_lowercase: "spec_lowercase ''X-Test'' = ''x-test''" "spec_lowercase ''x-test'' = ''x-test''"
  by (simp_all add: spec_lowercase_def spec_lower_char_def)

lemma example_lowerNames:
  "lowerNames exampleHeap exampleHeaders = [''x-test'', ''1'', ''x-test'', ''2'']"
  by (simp add: exampleHeap_def exampleHeaders_def example_lowercase)

lemma example_loaded:
  "map (loadHeader exampleHeap) exampleHeaders =
     [\<lparr>HPACKHeader.name = ''X-Test'', HPACKHeader.value = ''1''\<rparr>,
      \<lparr>HPACKHeader.name = ''x-test'', HPACKHeader.value = ''2''\<rparr>]"
  by (simp add: exampleHeap_def exampleHeaders_def loadHeader_def)

lemma example_input:
  "engineInput impl exampleHeap exampleHeaders =
     [\<lparr>HPACKHeader.name = ''x-test'', HPACKHeader.value = ''1''\<rparr>,
      \<lparr>HPACKHeader.name = ''x-test'', HPACKHeader.value = ''2''\<rparr>]"
proof (cases impl)
  case RefCounted
  then show ?thesis
    unfolding engineInput_def example_lowerNames
    by (simp add: exampleHeaders_def loadHeader_def)
next
  case Copying
  then show ?thesis
    unfolding engineInput_def
    by (simp add: exampleHeap_def exampleHeaders_def spec_normalized_def example_lowercase)
qed

lemma example_engine:
  "encoderEncode fakeEngine (encoder (HPACKCodec_new fakeEngine DOWNSTREAM))
     (engineInput impl exampleHeap exampleHeaders)
     (encodeHeadroom (HPACKCodec_new fakeEngine DOWNSTREAM)) =
   (Some [[6], [6]], [engineInput impl exampleHeap exampleHeaders])"
  unfolding example_input fake_new_encoder fake_new_fields
  by (simp add: fakeEngine_def fakeEncode_def)

lemma example_size:
  "encodedSizeOf (Some [[6], [6]]) (map (loadHeader exampleHeap) exampleHeaders) =
     \<lparr>compressed = 2, uncompressed = 18\<rparr>"
  unfolding example_loaded
  by (simp add: encodedSizeOf_def spec_uncompressed_def computeChainDataLength_def)

lemma example_finalHeap:
  "finalHeap RefCounted exampleHeap exampleHeaders = [''x-test'', ''1'', ''x-test'', ''2'']"
  "finalHeap Copying exampleHeap exampleHeaders =
     exampleHeap @ [''x-test'', ''1'', ''x-test'', ''1'', ''x-test'', ''2'', ''x-test'', ''2'']"
  by (simp_all add: finalHeap_def example_lowerNames transient_def exampleHeaders_def
      example_lowercase exampleHeap_def)

lemma alias_valid: "validHeaders aliasHeap aliasHeaders"
  by (simp add: validHeaders_def validHeader_def aliasHeap_def aliasHeaders_def)

lemma alias_lowercase: "spec_lowercase ''AbC'' = ''abc''"
  by (simp add: spec_lowercase_def spec_lower_char_def)

lemma alias_input:
  "engineInput RefCounted aliasHeap aliasHeaders =
     [\<lparr>HPACKHeader.name = ''abc'', HPACKHeader.value = ''abc''\<rparr>]"
  "engineInput Copying aliasHeap aliasHeaders =
     [\<lparr>HPACKHeader.name = ''abc'', HPACKHeader.value = ''AbC''\<rparr>]"
  by (simp_all add: engineInput_def aliasHeap_def aliasHeaders_def loadHeader_def
      spec_normalized_def alias_lowercase)

lemma example_decode:
  "decode fakeEngine (HPACKCodec_new fakeEngine UPSTREAM) [0, 1, 0] 2 =
     Some (Inr \<lparr>headers = concat (map spec_pieces [fakeHeader 0, fakeHeader 1]), bytesConsumed = 2\<rparr>,
           [0],
           (HPACKCodec_new fakeEngine UPSTREAM)
             \<lparr>outHeaders := concat (map spec_pieces [fakeHeader 0, fakeHeader 1]),
              decodedHeaders := [fakeHeader 0, fakeHeader 1],
              decoder := \<lparr>decoderType = RESP, decoderState = None\<rparr>,
              decodedSize := \<lparr>compressed = 2, uncompressed = 26\<rparr>\<rparr>)"
proof -
  let ?s = "HPACKCodec_new fakeEngine UPSTREAM"
  have e: "decoderDecode fakeEngine (decoder ?s) [0, 1, 0] 2 [] =
             (2, [fakeHeader 0, fakeHeader 1], [0], None)"
    by (simp add: fakeEngine_def fakeDecode_def)
  have n: "\<not> hasError fakeEngine ((decoder ?s)\<lparr>decoderState := None\<rparr>)"
    by (simp add: fakeEngine_def)
  have l: "length [fakeHeader 0, fakeHeader 1] < 2 ^ 32" by simp
  have z: "decodedSizeOf 2 [fakeHeader 0, fakeHeader 1] = \<lparr>compressed = 2, uncompressed = 26\<rparr>"
    by (simp add: decodedSizeOf_def spec_uncompressed_def fakeHeader_def)
  show ?thesis
    unfolding decode_success[OF e n l] z
    by (simp add: fake_new_decoder fake_new_fields)
qed

lemma fake_decode_dup:
  "decoderDecode fakeEngine (decoder (HPACKCodec_new fakeEngine UPSTREAM)) [1, 1] 2 [] =
     (2, [fakeHeader 1, fakeHeader 1], [], None)"
  by (simp add: fakeEngine_def fakeDecode_def)

lemma huge_valid: "validHeaders hugeHeap hugeHeaders"
  by (simp add: validHeaders_def validHeader_def hugeHeap_def hugeHeaders_def)

lemma huge_sum: "spec_uncompressed (map (loadHeader hugeHeap) hugeHeaders) = 4294967296"
  by (simp add: spec_uncompressed_def loadHeader_def hugeHeap_def hugeHeaders_def)

lemma fake_decode_two:
  "decoderDecode fakeEngine (decoder ((HPACKCodec_new fakeEngine UPSTREAM)\<lparr>stats := r\<rparr>)) [0, 1, 0] 2 [] =
     (2, [fakeHeader 0, fakeHeader 1], [0], None)"
  by (simp add: fakeEngine_def fakeDecode_def)

lemma fake_no_error:
  "\<not> hasError fakeEngine (d\<lparr>decoderState := None\<rparr>)"
  by (simp add: fakeEngine_def)

lemma fake_two_sum: "spec_uncompressed [fakeHeader 0, fakeHeader 1] = 26"
  by (simp add: spec_uncompressed_def fakeHeader_def)

lemma fake_decode_after:
  "decoder s1 = \<lparr>decoderType = RESP, decoderState = None\<rparr> \<Longrightarrow>
   decoderDecode fakeEngine (decoder s1) [0] 1 [] = (1, [fakeHeader 0], [], None) \<and>
   decoderDecode fakeEngine (decoder s1) [0] 2 [] = (0, [], [0], Some (OTHER 7))"
  by (simp add: fakeEngine_def fakeDecode_def)

lemma example_engine_stats:
  "encoderEncode fakeEngine (encoder ((HPACKCodec_new fakeEngine DOWNSTREAM)\<lparr>stats := r\<rparr>))
     (engineInput impl exampleHeap exampleHeaders)
     (encodeHeadroom ((HPACKCodec_new fakeEngine DOWNSTREAM)\<lparr>stats := r\<rparr>)) =
   (Some [[6], [6]], [engineInput impl exampleHeap exampleHeaders])"
  using example_engine[of impl] by simp

lemma empty_engine:
  "encoderEncode fakeEngine (encoder ((HPACKCodec_new fakeEngine DOWNSTREAM)\<lparr>stats := r\<rparr>))
     (engineInput impl heap [])
     (encodeHeadroom ((HPACKCodec_new fakeEngine DOWNSTREAM)\<lparr>stats := r\<rparr>)) = (None, [[]])"
proof -
  have i: "engineInput impl heap [] = []"
    by (cases impl) (simp_all add: engineInput_def)
  have e: "encoder ((HPACKCodec_new fakeEngine DOWNSTREAM)\<lparr>stats := r\<rparr>) =
             \<lparr>encoderType = RESP, huffman = True, encoderState = []\<rparr>"
    by (simp add: fake_new_encoder)
  show ?thesis
    unfolding i e by (simp add: fakeEngine_def fakeEncode_def)
qed

section \<open>The claims\<close>

text \<open>
  C1. Whenever the engine reports an error state after its decode call,
  \<^verbatim>\<open>decode\<close> returns, and what it returns is an error kind: \<^verbatim>\<open>HEADERS_TOO_LARGE\<close>
  exactly when the engine's error is its headers-too-large error, and
  \<^verbatim>\<open>BAD_ENCODING\<close> for every other engine error. The result is the \<open>Inl\<close> side of
  the sum, which holds no piece list and no count of bytes consumed.
\<close>

theorem decode_error_kind:
  assumes "decoderDecode E (decoder s) cursor len [] = (consumed, decoded, cursor', ds)"
    and "hasError E ((decoder s)\<lparr>decoderState := ds\<rparr>)"
  shows "map_option fst (decode E s cursor len) =
           Some (Inl (if getError E ((decoder s)\<lparr>decoderState := ds\<rparr>) = Error.HEADERS_TOO_LARGE
                      then HeaderDecodeError.HEADERS_TOO_LARGE
                      else HeaderDecodeError.BAD_ENCODING))"
  by (simp add: decode_error[OF assms])

text \<open>
  On the fake engine: a block of four bytes is too large, and a block longer
  than the cursor is another engine error.
\<close>

theorem decode_error_kind_witness:
  "map_option fst (decode fakeEngine (HPACKCodec_new fakeEngine DOWNSTREAM) [0, 1, 0, 1] 4) =
     Some (Inl HeaderDecodeError.HEADERS_TOO_LARGE) \<and>
   map_option fst (decode fakeEngine (HPACKCodec_new fakeEngine DOWNSTREAM) [0] 2) =
     Some (Inl HeaderDecodeError.BAD_ENCODING)"
proof -
  let ?s = "HPACKCodec_new fakeEngine DOWNSTREAM"
  have a: "decoderDecode fakeEngine (decoder ?s) [0, 1, 0, 1] 4 [] =
             (0, [], [0, 1, 0, 1], Some Error.HEADERS_TOO_LARGE)"
    by (simp add: fakeEngine_def fakeDecode_def)
  have b: "hasError fakeEngine ((decoder ?s)\<lparr>decoderState := Some Error.HEADERS_TOO_LARGE\<rparr>)"
    by (simp add: fakeEngine_def)
  have c: "decoderDecode fakeEngine (decoder ?s) [0] 2 [] = (0, [], [0], Some (OTHER 7))"
    by (simp add: fakeEngine_def fakeDecode_def)
  have d: "hasError fakeEngine ((decoder ?s)\<lparr>decoderState := Some (OTHER 7)\<rparr>)"
    by (simp add: fakeEngine_def)
  show ?thesis
    using decode_error_kind[OF a b] decode_error_kind[OF c d]
    by (simp add: fakeEngine_def)
qed



text \<open>
  C3 as stated, without the reduction, fails: for a single header whose name
  has \<open>2 ^ 32 - 2\<close> characters and whose value is empty the sum is \<open>2 ^ 32\<close>,
  and \<^verbatim>\<open>encode\<close> records 0, with either string implementation.
\<close>

theorem uncompressed_size_counterexample:
  "map_option (uncompressed \<circ> encodedSize \<circ> snd \<circ> snd)
     (encode RefCounted fakeEngine (HPACKCodec_new fakeEngine DOWNSTREAM) hugeHeap hugeHeaders) = Some 0 \<and>
   map_option (uncompressed \<circ> encodedSize \<circ> snd \<circ> snd)
     (encode Copying fakeEngine (HPACKCodec_new fakeEngine DOWNSTREAM) hugeHeap hugeHeaders) = Some 0 \<and>
   spec_uncompressed (map (loadHeader hugeHeap) hugeHeaders) = 4294967296"
  unfolding encode_valid_ex[OF huge_valid]
  by (simp add: encodedSizeOf_def huge_sum)

text \<open>
  C3. The uncompressed size that \<^verbatim>\<open>encode\<close> records is the sum over the caller's
  headers of name length + value length + 2, and the one a successful
  \<^verbatim>\<open>decode\<close> records is the same sum over the headers the engine decoded, in
  both cases reduced modulo \<open>2 ^ 32\<close>: the sum is accumulated in a \<^verbatim>\<open>uint32_t\<close>. It
  is the sum itself whenever the sum is below \<open>2 ^ 32\<close>, whatever the compressed
  size is, and 0 for an empty header list. The value is recorded, not only
  right if recorded: \<^verbatim>\<open>encode\<close> returns for every list of pointers into the
  caller's store, \<^verbatim>\<open>decode\<close> returns its success result whenever the engine
  reports no error and has decoded fewer than \<open>2 ^ 32\<close> headers, and an attached
  stats recorder receives the tuple that was stored.
\<close>

theorem uncompressed_size_mod:
  "(validHeaders heap hdrs \<longrightarrow>
      (\<exists>buf heap' s'. encode impl E s heap hdrs = Some (buf, heap', s') \<and>
         uncompressed (encodedSize s') = spec_uncompressed (map (loadHeader heap) hdrs) mod 2 ^ 32 \<and>
         stats s' = map_option (\<lambda>events. events @ [recordEncode HPACK (encodedSize s')]) (stats s))) \<and>
   (\<exists>buf heap' s'. encode impl E s heap [] = Some (buf, heap', s') \<and>
      uncompressed (encodedSize s') = 0) \<and>
   (decoderDecode E (decoder t) cursor len [] = (consumed, decoded, c, ds) \<and>
    \<not> hasError E ((decoder t)\<lparr>decoderState := ds\<rparr>) \<and> length decoded < 2 ^ 32 \<longrightarrow>
      (\<exists>res t'. decode E t cursor len = Some (Inr res, c, t') \<and>
         uncompressed (decodedSize t') = spec_uncompressed decoded mod 2 ^ 32 \<and>
         stats t' = map_option (\<lambda>events. events @ [recordDecode HPACK (decodedSize t')]) (stats t))) \<and>
   (\<forall>res c' t'. decode E t cursor len = Some (Inr res, c', t') \<longrightarrow>
      uncompressed (decodedSize t') =
        spec_uncompressed (fst (snd (decoderDecode E (decoder t) cursor len []))) mod 2 ^ 32 \<and>
      stats t' = map_option (\<lambda>events. events @ [recordDecode HPACK (decodedSize t')]) (stats t))"
proof -
  have A: "validHeaders heap hdrs \<longrightarrow>
      (\<exists>buf heap' s'. encode impl E s heap hdrs = Some (buf, heap', s') \<and>
         uncompressed (encodedSize s') = spec_uncompressed (map (loadHeader heap) hdrs) mod 2 ^ 32 \<and>
         stats s' = map_option (\<lambda>events. events @ [recordEncode HPACK (encodedSize s')]) (stats s))"
  proof
    assume v: "validHeaders heap hdrs"
    show "\<exists>buf heap' s'. encode impl E s heap hdrs = Some (buf, heap', s') \<and>
         uncompressed (encodedSize s') = spec_uncompressed (map (loadHeader heap) hdrs) mod 2 ^ 32 \<and>
         stats s' = map_option (\<lambda>events. events @ [recordEncode HPACK (encodedSize s')]) (stats s)"
      unfolding encode_valid_ex[OF v]
      by (cases "stats s") (simp_all add: encodedSizeOf_def)
  qed
  have B: "\<exists>buf heap' s'. encode impl E s heap [] = Some (buf, heap', s') \<and>
      uncompressed (encodedSize s') = 0"
    unfolding encode_valid_ex[OF validHeaders_Nil]
    by (simp add: encodedSizeOf_def spec_uncompressed_def)
  have C: "decoderDecode E (decoder t) cursor len [] = (consumed, decoded, c, ds) \<and>
    \<not> hasError E ((decoder t)\<lparr>decoderState := ds\<rparr>) \<and> length decoded < 2 ^ 32 \<longrightarrow>
      (\<exists>res t'. decode E t cursor len = Some (Inr res, c, t') \<and>
         uncompressed (decodedSize t') = spec_uncompressed decoded mod 2 ^ 32 \<and>
         stats t' = map_option (\<lambda>events. events @ [recordDecode HPACK (decodedSize t')]) (stats t))"
  proof
    assume a: "decoderDecode E (decoder t) cursor len [] = (consumed, decoded, c, ds) \<and>
      \<not> hasError E ((decoder t)\<lparr>decoderState := ds\<rparr>) \<and> length decoded < 2 ^ 32"
    then have e: "decoderDecode E (decoder t) cursor len [] = (consumed, decoded, c, ds)"
      and n: "\<not> hasError E ((decoder t)\<lparr>decoderState := ds\<rparr>)"
      and l: "length decoded < 2 ^ 32"
      by simp_all
    show "\<exists>res t'. decode E t cursor len = Some (Inr res, c, t') \<and>
         uncompressed (decodedSize t') = spec_uncompressed decoded mod 2 ^ 32 \<and>
         stats t' = map_option (\<lambda>events. events @ [recordDecode HPACK (decodedSize t')]) (stats t)"
      unfolding decode_success[OF e n l]
      by (cases "stats t") (simp_all add: decodedSizeOf_def)
  qed
  have D: "\<forall>res c' t'. decode E t cursor len = Some (Inr res, c', t') \<longrightarrow>
      uncompressed (decodedSize t') =
        spec_uncompressed (fst (snd (decoderDecode E (decoder t) cursor len []))) mod 2 ^ 32 \<and>
      stats t' = map_option (\<lambda>events. events @ [recordDecode HPACK (decodedSize t')]) (stats t)"
  proof (intro allI impI)
    fix res c' t'
    assume d: "decode E t cursor len = Some (Inr res, c', t')"
    obtain consumed' decoded' c'' ds' where
      e: "decoderDecode E (decoder t) cursor len [] = (consumed', decoded', c'', ds')"
      by (metis prod_cases4)
    from decode_Inr[OF d e]
    show "uncompressed (decodedSize t') =
            spec_uncompressed (fst (snd (decoderDecode E (decoder t) cursor len []))) mod 2 ^ 32 \<and>
          stats t' = map_option (\<lambda>events. events @ [recordDecode HPACK (decodedSize t')]) (stats t)"
      by (cases "stats t") (simp_all add: e decodedSizeOf_def)
  qed
  from A B C D show ?thesis by (intro conjI)
qed

text \<open>
  The specification's example headers have the uncompressed size
  \<open>(6 + 1 + 2) + (6 + 1 + 2) = 18\<close>; the two headers the fake engine decodes
  have \<open>(4 + 9 + 2) + (6 + 3 + 2) = 26\<close>. A recorder is attached in both calls.
\<close>

theorem uncompressed_size_mod_witness:
  "validHeaders exampleHeap exampleHeaders \<and>
   map_option (\<lambda>r. (uncompressed (encodedSize (snd (snd r))), stats (snd (snd r))))
     (encode RefCounted fakeEngine ((HPACKCodec_new fakeEngine DOWNSTREAM)\<lparr>stats := Some []\<rparr>)
        exampleHeap exampleHeaders) =
     Some (18, Some [recordEncode HPACK \<lparr>compressed = 2, uncompressed = 18\<rparr>]) \<and>
   map_option (\<lambda>r. (uncompressed (decodedSize (snd (snd r))), stats (snd (snd r))))
     (decode fakeEngine ((HPACKCodec_new fakeEngine UPSTREAM)\<lparr>stats := Some []\<rparr>) [0, 1, 0] 2) =
     Some (26, Some [recordDecode HPACK \<lparr>compressed = 2, uncompressed = 26\<rparr>])"
proof -
  let ?d = "(HPACKCodec_new fakeEngine DOWNSTREAM)\<lparr>stats := Some []\<rparr>"
  let ?u = "(HPACKCodec_new fakeEngine UPSTREAM)\<lparr>stats := Some []\<rparr>"
  have n: "spec_uncompressed (map (loadHeader exampleHeap) exampleHeaders) = 18"
    unfolding example_loaded by (simp add: spec_uncompressed_def)
  have l: "length [fakeHeader 0, fakeHeader 1] < 2 ^ 32" by simp
  note t = uncompressed_size_mod[where impl = RefCounted and E = fakeEngine and s = ?d
      and heap = exampleHeap and hdrs = exampleHeaders and t = ?u and cursor = "[0, 1, 0]"
      and len = 2 and consumed = 2 and decoded = "[fakeHeader 0, fakeHeader 1]" and c = "[0]"
      and ds = None]
  from t example_valid obtain buf heap' s' where
    enc: "encode RefCounted fakeEngine ?d exampleHeap exampleHeaders = Some (buf, heap', s')"
      "uncompressed (encodedSize s') = 18"
      "stats s' = Some [recordEncode HPACK (encodedSize s')]"
    unfolding n by auto
  from t fake_decode_two[of "Some []"] fake_no_error l obtain res t' where
    dec: "decode fakeEngine ?u [0, 1, 0] 2 = Some (Inr res, [0], t')"
      "uncompressed (decodedSize t') = 26"
      "stats t' = Some [recordDecode HPACK (decodedSize t')]"
    unfolding fake_two_sum by auto
  have es: "encodedSize s' = \<lparr>compressed = 2, uncompressed = 18\<rparr>"
    using enc(1) unfolding encode_valid_ex[OF example_valid]
    by (auto simp: example_size[unfolded example_loaded] example_loaded example_input
        fakeEngine_def fakeEncode_def HPACKCodec_new_def)
  have ds: "decodedSize t' = \<lparr>compressed = 2, uncompressed = 26\<rparr>"
    using dec(1) unfolding decode_success[OF fake_decode_two fake_no_error l]
    by (auto simp: decodedSizeOf_def fake_two_sum)
  show ?thesis
    using enc dec by (simp add: example_valid es ds)
qed

text \<open>
  C4. Whenever the engine reports no error and has decoded the header list
  \<open>decoded\<close>, of fewer than \<open>2 ^ 32\<close> headers, \<^verbatim>\<open>decode\<close> returns the piece
  list of \<open>decoded\<close>; and the piece list of every successful \<^verbatim>\<open>decode\<close> has
  exactly twice as many entries as \<open>decoded\<close>, in the engine's order: the
  pieces at positions \<open>2 * i\<close> and \<open>2 * i + 1\<close> are the name and the value of
  the \<open>i\<close>-th header, and every piece has the multi-valued flag set. Headers
  with equal names each keep their two pieces.
\<close>

theorem decode_piece_list:
  assumes "decoderDecode E (decoder s) cursor len [] = (consumed, decoded, c, ds)"
  shows "(\<not> hasError E ((decoder s)\<lparr>decoderState := ds\<rparr>) \<and> length decoded < 2 ^ 32 \<longrightarrow>
           (\<exists>s'. decode E s cursor len =
              Some (Inr \<lparr>headers = concat (map spec_pieces decoded), bytesConsumed = consumed\<rparr>,
                    c, s'))) \<and>
         (\<forall>res c' s'. decode E s cursor len = Some (Inr res, c', s') \<longrightarrow>
            headers res = concat (map spec_pieces decoded) \<and>
            length (headers res) = 2 * length decoded \<and>
            list_all multiValued (headers res) \<and>
            (\<forall>i<length decoded.
               headers res ! (2 * i) =
                 \<lparr>str = HPACKHeader.name (decoded ! i), owner = False, multiValued = True\<rparr> \<and>
               headers res ! (2 * i + 1) =
                 \<lparr>str = HPACKHeader.value (decoded ! i), owner = False, multiValued = True\<rparr>))"
proof -
  have A: "\<not> hasError E ((decoder s)\<lparr>decoderState := ds\<rparr>) \<and> length decoded < 2 ^ 32 \<longrightarrow>
           (\<exists>s'. decode E s cursor len =
              Some (Inr \<lparr>headers = concat (map spec_pieces decoded), bytesConsumed = consumed\<rparr>,
                    c, s'))"
    by (auto simp: decode_success[OF assms])
  have B: "\<forall>res c' s'. decode E s cursor len = Some (Inr res, c', s') \<longrightarrow>
            headers res = concat (map spec_pieces decoded) \<and>
            length (headers res) = 2 * length decoded \<and>
            list_all multiValued (headers res) \<and>
            (\<forall>i<length decoded.
               headers res ! (2 * i) =
                 \<lparr>str = HPACKHeader.name (decoded ! i), owner = False, multiValued = True\<rparr> \<and>
               headers res ! (2 * i + 1) =
                 \<lparr>str = HPACKHeader.value (decoded ! i), owner = False, multiValued = True\<rparr>)"
  proof (intro allI impI)
    fix res c' s'
    assume d: "decode E s cursor len = Some (Inr res, c', s')"
    from decode_Inr[OF d assms] have h: "headers res = concat (map spec_pieces decoded)" by simp
    show "headers res = concat (map spec_pieces decoded) \<and>
            length (headers res) = 2 * length decoded \<and>
            list_all multiValued (headers res) \<and>
            (\<forall>i<length decoded.
               headers res ! (2 * i) =
                 \<lparr>str = HPACKHeader.name (decoded ! i), owner = False, multiValued = True\<rparr> \<and>
               headers res ! (2 * i + 1) =
                 \<lparr>str = HPACKHeader.value (decoded ! i), owner = False, multiValued = True\<rparr>)"
      unfolding h
      using nth_concat_pieces[of _ decoded]
      by (simp add: length_concat_pieces list_all_pieces)
  qed
  from A B show ?thesis by (intro conjI)
qed

text \<open>Two decoded headers with the same name give four pieces.\<close>

theorem decode_piece_list_witness:
  "map_option (map str \<circ> headers \<circ> projr \<circ> fst)
     (decode fakeEngine (HPACKCodec_new fakeEngine UPSTREAM) [1, 1] 2) =
     Some [''accept'', ''*/*'', ''accept'', ''*/*''] \<and>
   map_option (map multiValued \<circ> headers \<circ> projr \<circ> fst)
     (decode fakeEngine (HPACKCodec_new fakeEngine UPSTREAM) [1, 1] 2) =
     Some [True, True, True, True]"
proof -
  have l: "length [fakeHeader 1, fakeHeader 1] < 2 ^ 32" by simp
  from decode_piece_list[OF fake_decode_dup] fake_no_error l
  obtain s' where
    "decode fakeEngine (HPACKCodec_new fakeEngine UPSTREAM) [1, 1] 2 =
       Some (Inr \<lparr>headers = concat (map spec_pieces [fakeHeader 1, fakeHeader 1]), bytesConsumed = 2\<rparr>,
             [], s')"
    by blast
  then show ?thesis
    by (simp add: spec_pieces_def fakeHeader_def)
qed

text \<open>
  C5. The names handed to the engine are the caller's names in lowercase, in
  the caller's order (\<open>engineInput_names\<close>), but not every value is handed over
  as it is. With reference-counted strings the write through
  \<^verbatim>\<open>const_cast<char*>(header.name.data())\<close> goes to the buffer that \<open>header\<close>'s
  name shares with the caller's string, and a value whose string has that
  buffer reaches the engine in lowercase (\<open>engineInput_values_refcounted\<close>):
  for the header whose name and value are the one string \<^verbatim>\<open>AbC\<close> the engine is
  given \<^verbatim>\<open>abc\<close> as the value, where the claim has \<^verbatim>\<open>AbC\<close>. With copying
  strings every value is handed over as it is (\<open>engineInput_values_copying\<close>).
\<close>

theorem encode_lowercases_shared_value:
  "map_option (encoderState \<circ> encoder \<circ> snd \<circ> snd)
     (encode RefCounted fakeEngine (HPACKCodec_new fakeEngine DOWNSTREAM) aliasHeap aliasHeaders) =
     Some [[\<lparr>HPACKHeader.name = ''abc'', HPACKHeader.value = ''abc''\<rparr>]] \<and>
   map (spec_normalized aliasHeap) aliasHeaders =
     [\<lparr>HPACKHeader.name = ''abc'', HPACKHeader.value = ''AbC''\<rparr>]"
  unfolding encode_valid_ex[OF alias_valid] alias_input
  by (simp add: fakeEngine_def fakeEncode_def HPACKCodec_new_def aliasHeap_def aliasHeaders_def
      spec_normalized_def alias_lowercase)

text \<open>
  C6. A \<^verbatim>\<open>decode\<close> call that follows another on the same adapter gives the
  same result whatever the two scratch lists hold when it starts. Where the
  engine reports an error it returns an error and leaves the piece list
  empty; where the engine reports none (and has decoded fewer than \<open>2 ^ 32\<close>
  headers) it returns, and leaves in the piece list, the pieces of the headers
  the engine decoded in this call into an empty list, and nothing else.
\<close>

theorem decode_reuse:
  assumes "decode E s0 cursor1 len1 = Some (r1, c1, s1)"
    and "decoderDecode E (decoder s1) cursor2 len2 [] = (consumed, decoded, c, ds)"
  shows "(\<forall>out dh. decode E (s1\<lparr>outHeaders := out, decodedHeaders := dh\<rparr>) cursor2 len2 =
                    decode E s1 cursor2 len2) \<and>
         (hasError E ((decoder s1)\<lparr>decoderState := ds\<rparr>) \<longrightarrow>
            (\<exists>e s2. decode E s1 cursor2 len2 = Some (Inl e, c, s2) \<and>
               outHeaders s2 = [] \<and> decodedHeaders s2 = decoded)) \<and>
         (\<not> hasError E ((decoder s1)\<lparr>decoderState := ds\<rparr>) \<and> length decoded < 2 ^ 32 \<longrightarrow>
            (\<exists>s2. decode E s1 cursor2 len2 =
               Some (Inr \<lparr>headers = concat (map spec_pieces decoded), bytesConsumed = consumed\<rparr>,
                     c, s2) \<and>
               outHeaders s2 = concat (map spec_pieces decoded) \<and> decodedHeaders s2 = decoded)) \<and>
         (\<forall>res c' s2. decode E s1 cursor2 len2 = Some (Inr res, c', s2) \<longrightarrow>
            headers res = concat (map spec_pieces decoded) \<and>
            outHeaders s2 = concat (map spec_pieces decoded) \<and> decodedHeaders s2 = decoded)"
proof -
  have A: "\<forall>out dh. decode E (s1\<lparr>outHeaders := out, decodedHeaders := dh\<rparr>) cursor2 len2 =
                    decode E s1 cursor2 len2"
    by (simp add: decode_scratch_independent)
  have B: "hasError E ((decoder s1)\<lparr>decoderState := ds\<rparr>) \<longrightarrow>
            (\<exists>e s2. decode E s1 cursor2 len2 = Some (Inl e, c, s2) \<and>
               outHeaders s2 = [] \<and> decodedHeaders s2 = decoded)"
    by (auto simp: decode_error[OF assms(2)])
  have C: "\<not> hasError E ((decoder s1)\<lparr>decoderState := ds\<rparr>) \<and> length decoded < 2 ^ 32 \<longrightarrow>
            (\<exists>s2. decode E s1 cursor2 len2 =
               Some (Inr \<lparr>headers = concat (map spec_pieces decoded), bytesConsumed = consumed\<rparr>,
                     c, s2) \<and>
               outHeaders s2 = concat (map spec_pieces decoded) \<and> decodedHeaders s2 = decoded)"
    by (auto simp: decode_success[OF assms(2)])
  have D: "\<forall>res c' s2. decode E s1 cursor2 len2 = Some (Inr res, c', s2) \<longrightarrow>
            headers res = concat (map spec_pieces decoded) \<and>
            outHeaders s2 = concat (map spec_pieces decoded) \<and> decodedHeaders s2 = decoded"
  proof (intro allI impI)
    fix res c' s2
    assume d: "decode E s1 cursor2 len2 = Some (Inr res, c', s2)"
    from decode_Inr[OF d assms(2)]
    show "headers res = concat (map spec_pieces decoded) \<and>
            outHeaders s2 = concat (map spec_pieces decoded) \<and> decodedHeaders s2 = decoded"
      by simp
  qed
  from A B C D show ?thesis by (intro conjI)
qed

text \<open>
  After a call that decoded two headers, a call that decodes one header
  returns the two pieces of that header, and a call that fails leaves the
  piece list empty.
\<close>

theorem decode_reuse_witness:
  "map_option (map str \<circ> headers \<circ> projr \<circ> fst)
     (decode fakeEngine (HPACKCodec_new fakeEngine UPSTREAM) [0, 1, 0] 2) =
     Some [''host'', ''a.example'', ''accept'', ''*/*''] \<and>
   map_option (\<lambda>r. (map str (headers (projr (fst r))), map str (outHeaders (snd (snd r)))))
     (decode fakeEngine
        (snd (snd (the (decode fakeEngine (HPACKCodec_new fakeEngine UPSTREAM) [0, 1, 0] 2)))) [0] 1) =
     Some ([''host'', ''a.example''], [''host'', ''a.example'']) \<and>
   map_option (\<lambda>r. (isl (fst r), outHeaders (snd (snd r))))
     (decode fakeEngine
        (snd (snd (the (decode fakeEngine (HPACKCodec_new fakeEngine UPSTREAM) [0, 1, 0] 2)))) [0] 2) =
     Some (True, [])"
proof -
  let ?s1 = "(HPACKCodec_new fakeEngine UPSTREAM)
        \<lparr>outHeaders := concat (map spec_pieces [fakeHeader 0, fakeHeader 1]),
         decodedHeaders := [fakeHeader 0, fakeHeader 1],
         decoder := \<lparr>decoderType = RESP, decoderState = None\<rparr>,
         decodedSize := \<lparr>compressed = 2, uncompressed = 26\<rparr>\<rparr>"
  have d: "decoder ?s1 = \<lparr>decoderType = RESP, decoderState = None\<rparr>" by simp
  note e = fake_decode_after[OF d]
  have l: "length [fakeHeader 0] < 2 ^ 32" by simp
  have err: "hasError fakeEngine ((decoder ?s1)\<lparr>decoderState := Some (OTHER 7)\<rparr>)"
    by (simp add: fakeEngine_def)
  from decode_reuse[OF example_decode e[THEN conjunct1]] fake_no_error l
  obtain s2 where ok:
    "decode fakeEngine ?s1 [0] 1 =
       Some (Inr \<lparr>headers = concat (map spec_pieces [fakeHeader 0]), bytesConsumed = 1\<rparr>, [], s2)"
    "outHeaders s2 = concat (map spec_pieces [fakeHeader 0])"
    by blast
  from decode_reuse[OF example_decode e[THEN conjunct2]] err
  obtain e' s3 where bad:
    "decode fakeEngine ?s1 [0] 2 = Some (Inl e', [0], s3)" "outHeaders s3 = []"
    by blast
  show ?thesis
    unfolding example_decode option.sel snd_conv
    using ok bad by (simp add: spec_pieces_def fakeHeader_def)
qed

text \<open>
  C7. \<^verbatim>\<open>encode\<close> returns the engine's buffer and records as compressed size
  the total length of the buffer's chain, or 0 when the engine produced no
  buffer. \<^verbatim>\<open>decode\<close>, whenever the engine reports no error and has decoded
  fewer than \<open>2 ^ 32\<close> headers, returns its success result, records as
  compressed size the count of consumed bytes the engine returned, and returns
  the same count as \<^verbatim>\<open>bytesConsumed\<close>. In both operations an attached stats
  recorder receives the tuple that was stored.
\<close>

theorem compressed_size:
  "(validHeaders heap hdrs \<and>
    encoderEncode E (encoder s) (engineInput impl heap hdrs) (encodeHeadroom s) = (buf, es) \<longrightarrow>
      (\<exists>heap' s'. encode impl E s heap hdrs = Some (buf, heap', s') \<and>
         compressed (encodedSize s') = (case buf of None \<Rightarrow> 0 | Some b \<Rightarrow> computeChainDataLength b) \<and>
         stats s' = map_option (\<lambda>events. events @ [recordEncode HPACK (encodedSize s')]) (stats s))) \<and>
   (decoderDecode E (decoder t) cursor len [] = (consumed, decoded, c, ds) \<and>
    \<not> hasError E ((decoder t)\<lparr>decoderState := ds\<rparr>) \<and> length decoded < 2 ^ 32 \<longrightarrow>
      (\<exists>res t'. decode E t cursor len = Some (Inr res, c, t') \<and>
         bytesConsumed res = consumed \<and>
         compressed (decodedSize t') = consumed \<and>
         stats t' = map_option (\<lambda>events. events @ [recordDecode HPACK (decodedSize t')]) (stats t))) \<and>
   (\<forall>res c' t'. decode E t cursor len = Some (Inr res, c', t') \<longrightarrow>
      bytesConsumed res = fst (decoderDecode E (decoder t) cursor len []) \<and>
      compressed (decodedSize t') = fst (decoderDecode E (decoder t) cursor len []) \<and>
      stats t' = map_option (\<lambda>events. events @ [recordDecode HPACK (decodedSize t')]) (stats t))"
proof -
  have A: "validHeaders heap hdrs \<and>
    encoderEncode E (encoder s) (engineInput impl heap hdrs) (encodeHeadroom s) = (buf, es) \<longrightarrow>
      (\<exists>heap' s'. encode impl E s heap hdrs = Some (buf, heap', s') \<and>
         compressed (encodedSize s') = (case buf of None \<Rightarrow> 0 | Some b \<Rightarrow> computeChainDataLength b) \<and>
         stats s' = map_option (\<lambda>events. events @ [recordEncode HPACK (encodedSize s')]) (stats s))"
  proof
    assume a: "validHeaders heap hdrs \<and>
      encoderEncode E (encoder s) (engineInput impl heap hdrs) (encodeHeadroom s) = (buf, es)"
    then have v: "validHeaders heap hdrs"
      and e: "encoderEncode E (encoder s) (engineInput impl heap hdrs) (encodeHeadroom s) = (buf, es)"
      by simp_all
    show "\<exists>heap' s'. encode impl E s heap hdrs = Some (buf, heap', s') \<and>
         compressed (encodedSize s') = (case buf of None \<Rightarrow> 0 | Some b \<Rightarrow> computeChainDataLength b) \<and>
         stats s' = map_option (\<lambda>events. events @ [recordEncode HPACK (encodedSize s')]) (stats s)"
      unfolding encode_valid[OF v e]
      by (cases "stats s") (simp_all add: encodedSizeOf_def)
  qed
  have B: "decoderDecode E (decoder t) cursor len [] = (consumed, decoded, c, ds) \<and>
    \<not> hasError E ((decoder t)\<lparr>decoderState := ds\<rparr>) \<and> length decoded < 2 ^ 32 \<longrightarrow>
      (\<exists>res t'. decode E t cursor len = Some (Inr res, c, t') \<and>
         bytesConsumed res = consumed \<and>
         compressed (decodedSize t') = consumed \<and>
         stats t' = map_option (\<lambda>events. events @ [recordDecode HPACK (decodedSize t')]) (stats t))"
  proof
    assume a: "decoderDecode E (decoder t) cursor len [] = (consumed, decoded, c, ds) \<and>
      \<not> hasError E ((decoder t)\<lparr>decoderState := ds\<rparr>) \<and> length decoded < 2 ^ 32"
    then have e: "decoderDecode E (decoder t) cursor len [] = (consumed, decoded, c, ds)"
      and n: "\<not> hasError E ((decoder t)\<lparr>decoderState := ds\<rparr>)"
      and l: "length decoded < 2 ^ 32"
      by simp_all
    show "\<exists>res t'. decode E t cursor len = Some (Inr res, c, t') \<and>
         bytesConsumed res = consumed \<and>
         compressed (decodedSize t') = consumed \<and>
         stats t' = map_option (\<lambda>events. events @ [recordDecode HPACK (decodedSize t')]) (stats t)"
      unfolding decode_success[OF e n l]
      by (cases "stats t") (simp_all add: decodedSizeOf_def)
  qed
  have C: "\<forall>res c' t'. decode E t cursor len = Some (Inr res, c', t') \<longrightarrow>
      bytesConsumed res = fst (decoderDecode E (decoder t) cursor len []) \<and>
      compressed (decodedSize t') = fst (decoderDecode E (decoder t) cursor len []) \<and>
      stats t' = map_option (\<lambda>events. events @ [recordDecode HPACK (decodedSize t')]) (stats t)"
  proof (intro allI impI)
    fix res c' t'
    assume d: "decode E t cursor len = Some (Inr res, c', t')"
    obtain consumed' decoded' c'' ds' where
      e: "decoderDecode E (decoder t) cursor len [] = (consumed', decoded', c'', ds')"
      by (metis prod_cases4)
    from decode_Inr[OF d e]
    show "bytesConsumed res = fst (decoderDecode E (decoder t) cursor len []) \<and>
      compressed (decodedSize t') = fst (decoderDecode E (decoder t) cursor len []) \<and>
      stats t' = map_option (\<lambda>events. events @ [recordDecode HPACK (decodedSize t')]) (stats t)"
      by (cases "stats t") (simp_all add: e decodedSizeOf_def)
  qed
  from A B C show ?thesis by (intro conjI)
qed

text \<open>
  On the fake engine, with a recorder attached: a buffer of two one-byte
  segments, no buffer for the empty list, and a decode that consumes two
  bytes.
\<close>

theorem compressed_size_witness:
  "validHeaders exampleHeap exampleHeaders \<and>
   map_option (\<lambda>r. (fst r, compressed (encodedSize (snd (snd r))),
                     stats (snd (snd r)) = Some [recordEncode HPACK (encodedSize (snd (snd r)))]))
     (encode Copying fakeEngine ((HPACKCodec_new fakeEngine DOWNSTREAM)\<lparr>stats := Some []\<rparr>)
        exampleHeap exampleHeaders) =
     Some (Some [[6], [6]], 2, True) \<and>
   validHeaders exampleHeap [] \<and>
   map_option (\<lambda>r. (fst r, compressed (encodedSize (snd (snd r)))))
     (encode Copying fakeEngine ((HPACKCodec_new fakeEngine DOWNSTREAM)\<lparr>stats := Some []\<rparr>)
        exampleHeap []) = Some (None, 0) \<and>
   map_option (\<lambda>r. (bytesConsumed (projr (fst r)), compressed (decodedSize (snd (snd r))),
                     stats (snd (snd r)) = Some [recordDecode HPACK (decodedSize (snd (snd r)))]))
     (decode fakeEngine ((HPACKCodec_new fakeEngine UPSTREAM)\<lparr>stats := Some []\<rparr>) [0, 1, 0] 2) =
     Some (2, 2, True)"
proof -
  let ?d = "(HPACKCodec_new fakeEngine DOWNSTREAM)\<lparr>stats := Some []\<rparr>"
  let ?u = "(HPACKCodec_new fakeEngine UPSTREAM)\<lparr>stats := Some []\<rparr>"
  have l: "length [fakeHeader 0, fakeHeader 1] < 2 ^ 32" by simp
  note enc1 = compressed_size[where impl = Copying and E = fakeEngine and s = ?d
      and heap = exampleHeap and hdrs = exampleHeaders and buf = "Some [[6], [6]]"
      and es = "[engineInput Copying exampleHeap exampleHeaders]",
      THEN conjunct1, THEN mp, OF conjI[OF example_valid example_engine_stats]]
  note enc2 = compressed_size[where impl = Copying and E = fakeEngine and s = ?d
      and heap = exampleHeap and hdrs = "[]" and buf = None and es = "[[]]",
      THEN conjunct1, THEN mp, OF conjI[OF validHeaders_Nil empty_engine]]
  note dec = compressed_size[where E = fakeEngine and t = ?u and cursor = "[0, 1, 0]" and len = 2
      and consumed = 2 and decoded = "[fakeHeader 0, fakeHeader 1]" and c = "[0]" and ds = None,
      THEN conjunct2, THEN conjunct1, THEN mp,
      OF conjI[OF fake_decode_two conjI[OF fake_no_error l]]]
  from enc1 obtain heap1 s1 where one:
    "encode Copying fakeEngine ?d exampleHeap exampleHeaders = Some (Some [[6], [6]], heap1, s1)"
    "compressed (encodedSize s1) = computeChainDataLength [[6], [6]]"
    "stats s1 = Some [recordEncode HPACK (encodedSize s1)]"
    by auto
  from enc2 obtain heap2 s2 where two:
    "encode Copying fakeEngine ?d exampleHeap [] = Some (None, heap2, s2)"
    "compressed (encodedSize s2) = 0"
    by auto
  from dec obtain res t' where three:
    "decode fakeEngine ?u [0, 1, 0] 2 = Some (Inr res, [0], t')"
    "bytesConsumed res = 2" "compressed (decodedSize t') = 2"
    "stats t' = Some [recordDecode HPACK (decodedSize t')]"
    by auto
  show ?thesis
    using one two three
    by (simp add: example_valid validHeaders_Nil computeChainDataLength_def)
qed



text \<open>
  C9. With copying strings \<^verbatim>\<open>encode\<close> leaves the caller's store as it was
  (\<open>finalHeap_copying_prefix\<close>). With reference-counted strings it does not:
  \<open>header\<close>'s name shares its buffer with the caller's string, the write
  through \<^verbatim>\<open>const_cast<char*>(header.name.data())\<close> goes to that buffer, and
  every string a name pointer leads to is left in lowercase
  (\<open>finalHeap_refcounted_nth\<close>). After \<^verbatim>\<open>encode\<close> on the example list the caller's
  \<^verbatim>\<open>X-Test\<close> reads \<^verbatim>\<open>x-test\<close>.
\<close>

theorem encode_overwrites_callers_name:
  "map_option (fst \<circ> snd)
     (encode RefCounted fakeEngine (HPACKCodec_new fakeEngine DOWNSTREAM) exampleHeap exampleHeaders) =
     Some [''x-test'', ''1'', ''x-test'', ''2''] \<and>
   exampleHeap = [''X-Test'', ''1'', ''x-test'', ''2'']"
proof
  show "map_option (fst \<circ> snd)
     (encode RefCounted fakeEngine (HPACKCodec_new fakeEngine DOWNSTREAM) exampleHeap exampleHeaders) =
     Some [''x-test'', ''1'', ''x-test'', ''2'']"
    unfolding encode_valid_ex[OF example_valid] by (simp add: example_finalHeap)
  show "exampleHeap = [''X-Test'', ''1'', ''x-test'', ''2'']"
    by (simp add: exampleHeap_def)
qed

text \<open>
  C10. A \<^verbatim>\<open>decode\<close> call that returns an error leaves the stored decode size
  tuple as it was before the call, and an attached stats recorder receives
  exactly one event for the call, the decode-error event (and so no decode
  size event); with no recorder attached none is attached afterwards.
\<close>

theorem decode_error_keeps_size:
  assumes "decode E s cursor len = Some (Inl e, cursor', s')"
  shows "decodedSize s' = decodedSize s \<and>
         stats s' = map_option (\<lambda>events. events @ [recordDecodeError HPACK]) (stats s)"
proof -
  obtain consumed decoded c ds where
    e: "decoderDecode E (decoder s) cursor len [] = (consumed, decoded, c, ds)"
    by (metis prod_cases4)
  from decode_Inl[OF assms e] show ?thesis by simp
qed

text \<open>An error on an adapter with a recorder attached and a size stored.\<close>

theorem decode_error_keeps_size_witness:
  "map_option (\<lambda>r. (fst r, decodedSize (snd (snd r)), stats (snd (snd r))))
     (decode fakeEngine
        ((HPACKCodec_new fakeEngine DOWNSTREAM)
           \<lparr>decodedSize := \<lparr>compressed = 2, uncompressed = 26\<rparr>, stats := Some []\<rparr>) [0] 2) =
     Some (Inl HeaderDecodeError.BAD_ENCODING, \<lparr>compressed = 2, uncompressed = 26\<rparr>,
           Some [recordDecodeError HPACK])"
proof -
  let ?s = "(HPACKCodec_new fakeEngine DOWNSTREAM)
           \<lparr>decodedSize := \<lparr>compressed = 2, uncompressed = 26\<rparr>, stats := Some []\<rparr>"
  have a: "decoderDecode fakeEngine (decoder ?s) [0] 2 [] = (0, [], [0], Some (OTHER 7))"
    by (simp add: fakeEngine_def fakeDecode_def)
  have b: "hasError fakeEngine ((decoder ?s)\<lparr>decoderState := Some (OTHER 7)\<rparr>)"
    by (simp add: fakeEngine_def)
  have g: "getError fakeEngine ((decoder ?s)\<lparr>decoderState := Some (OTHER 7)\<rparr>) = OTHER 7"
    by (simp add: fakeEngine_def)
  note d = decode_error[OF a b, unfolded g]
  from decode_error_keeps_size[of fakeEngine ?s "[0]" 2 "HeaderDecodeError.BAD_ENCODING"] d
  show ?thesis by simp
qed

end
